theory Spec2Isabelle
  imports Complex_Main "HOL-Library.Word"
begin

section \<open>Settings and constants (App.tsx, lines 68--97)\<close>

text \<open>
  JavaScript numbers are modelled as real numbers: the arithmetic of the tone pipeline is
  exact here, \<open>Math.pow\<close> on a non-negative base is \<open>powr\<close>, \<open>Math.floor\<close> is the floor
  function. In the export loops, where a frame count and a percentage are cut out of a
  product and a quotient by \<open>Math.floor\<close> and \<open>Math.round\<close>, every product and quotient is
  the exact result rounded to a double; the rounding is a parameter. Integer quantities (pixel dimensions, the font size chosen on an integer
  slider from 8 to 32, loop counters) are natural numbers. A glyph is a UTF-16 code unit,
  so that the length of a density set is the length JavaScript reports.
\<close>

datatype colorMode = original | white | matrix | custom

record settings =
  fontSize :: nat
  fontFamily :: string
  contrast :: real
  brightness :: real
  saturation :: real
  gamma :: real
  colorMode :: colorMode
  customColor :: string
  density :: string
  invert :: bool
  backgroundColor :: string

type_synonym glyph = nat

definition DENSITY_SETS :: "(string \<times> glyph list) list" where
  "DENSITY_SETS =
     [(''standard'', map of_char '' .:-=+*#%@''),
      (''complex'', map of_char
         ('' .'`^'' @ [CHR 0x22] @ '',:;Il!i~+_-?][}{1)(|'' @ [CHR 0x5C] @
          ''/tfjrxnuvczXYUJCLQ0OZmwqpdbkhao*#MW&8%B@$'')),
      (''blocks'', [0x20, 0x2591, 0x2592, 0x2593, 0x2588]),
      (''matrix'', map of_char '' 01''),
      (''minimal'', map of_char ('' /'' @ [CHR 0x5C]))]"

definition DEFAULT_SETTINGS :: settings where
  "DEFAULT_SETTINGS =
     \<lparr> fontSize = 16,
       fontFamily = ''Menlo, Consolas, Courier New, monospace'',
       contrast = 1.4,
       brightness = 1.1,
       saturation = 1.0,
       gamma = 1.0,
       colorMode = original,
       customColor = ''#22d3ee'',
       density = ''standard'',
       invert = False,
       backgroundColor = ''#000000'' \<rparr>"

section \<open>The per-pixel tone transform (preprocessPixel, lines 101--132)\<close>

definition preprocessPixel :: "real \<Rightarrow> real \<Rightarrow> real \<Rightarrow> settings \<Rightarrow> real \<times> real \<times> real" where
  "preprocessPixel r0 g0 b0 s =
     (let (r, g, b) =
            (if brightness s \<noteq> 1
             then (r0 * brightness s, g0 * brightness s, b0 * brightness s)
             else (r0, g0, b0));
          (r, g, b) =
            (if contrast s \<noteq> 1
             then ((r - 128) * contrast s + 128,
                   (g - 128) * contrast s + 128,
                   (b - 128) * contrast s + 128)
             else (r, g, b));
          (r, g, b) =
            (if saturation s \<noteq> 1
             then (let gray = 0.2126 * r + 0.7152 * g + 0.0722 * b
                   in (gray + (r - gray) * saturation s,
                       gray + (g - gray) * saturation s,
                       gray + (b - gray) * saturation s))
             else (r, g, b));
          (r, g, b) =
            (if gamma s \<noteq> 1
             then (let invGamma = 1 / gamma s
                   in (255 * (max 0 r / 255) powr invGamma,
                       255 * (max 0 g / 255) powr invGamma,
                       255 * (max 0 b / 255) powr invGamma))
             else (r, g, b))
      in (max 0 (min 255 r), max 0 (min 255 g), max 0 (min 255 b)))"

text \<open>
  The same transform written after the words of the specification (section 4.1): every
  step is applied, whatever its parameter, and the gamma step clamps the channel to
  \<open>[0, 255]\<close> on both sides before the power. It is compared with \<open>preprocessPixel\<close>
  below.
\<close>

definition clamp255 :: "real \<Rightarrow> real" where
  "clamp255 c = max 0 (min 255 c)"

definition adjust_spec :: "real \<Rightarrow> real \<Rightarrow> real \<Rightarrow> settings \<Rightarrow> real \<times> real \<times> real" where
  "adjust_spec r0 g0 b0 s =
     (let (r, g, b) = (r0 * brightness s, g0 * brightness s, b0 * brightness s);
          (r, g, b) = ((r - 128) * contrast s + 128,
                       (g - 128) * contrast s + 128,
                       (b - 128) * contrast s + 128);
          gray = 0.2126 * r + 0.7152 * g + 0.0722 * b;
          (r, g, b) = (gray + (r - gray) * saturation s,
                       gray + (g - gray) * saturation s,
                       gray + (b - gray) * saturation s);
          (r, g, b) = (255 * (clamp255 r / 255) powr (1 / gamma s),
                       255 * (clamp255 g / 255) powr (1 / gamma s),
                       255 * (clamp255 b / 255) powr (1 / gamma s))
      in (clamp255 r, clamp255 g, clamp255 b))"

section \<open>Luminance to glyph, drawing and text (lines 134--248)\<close>

text \<open>
  \<open>drawImage\<close> followed by \<open>getImageData\<close> is the external resize: a source gives, for a
  grid of \<open>cols\<close> by \<open>rows\<close>, the RGBA bytes of the resized frame, read by index. The
  loops below read only indices below \<open>4 * cols * rows\<close>.
\<close>

type_synonym imageData = "nat \<Rightarrow> 8 word"
type_synonym canvasImageSource = "nat \<Rightarrow> nat \<Rightarrow> imageData"

definition densityKey :: "settings \<Rightarrow> string" where
  "densityKey s =
     (if density s \<noteq> [] \<and>
         (case map_of DENSITY_SETS (density s) of None \<Rightarrow> False | Some d \<Rightarrow> d \<noteq> [])
      then density s else ''standard'')"

definition densityOf :: "settings \<Rightarrow> glyph list" where
  "densityOf s = (case map_of DENSITY_SETS (densityKey s) of None \<Rightarrow> [] | Some d \<Rightarrow> d)"

definition luma :: "real \<times> real \<times> real \<Rightarrow> real" where
  "luma p = (case p of (r, g, b) \<Rightarrow> 0.2126 * r + 0.7152 * g + 0.0722 * b)"

text \<open>
  Lines 184--186, and again 238--240: the index from the luminance, the inversion, and
  only then the clamp.
\<close>

definition charIndex :: "real \<Rightarrow> nat \<Rightarrow> bool \<Rightarrow> int" where
  "charIndex avg len inverted =
     (let c = \<lfloor>(avg / 255) * real len\<rfloor>;
          c = (if inverted then int len - 1 - c else c)
      in max 0 (min (int len - 1) c))"

definition pixelAt :: "imageData \<Rightarrow> nat \<Rightarrow> settings \<Rightarrow> real \<times> real \<times> real" where
  "pixelAt pixels index s =
     preprocessPixel (real (unat (pixels index))) (real (unat (pixels (index + 1))))
       (real (unat (pixels (index + 2)))) s"

definition glyphIndex :: "imageData \<Rightarrow> nat \<Rightarrow> settings \<Rightarrow> int" where
  "glyphIndex pixels index s =
     charIndex (luma (pixelAt pixels index s)) (length (densityOf s)) (invert s)"

datatype fillStyle = Css string | Rgb real real real | Rgba real real real real

datatype canvas_op =
    FillRect fillStyle nat nat nat nat
  | FillText glyph fillStyle nat nat

definition cellStyle :: "settings \<Rightarrow> real \<times> real \<times> real \<Rightarrow> fillStyle" where
  "cellStyle s p =
     (case colorMode s of
        white \<Rightarrow> Css ''#ffffff''
      | custom \<Rightarrow> Css (customColor s)
      | original \<Rightarrow> (case p of (r, g, b) \<Rightarrow> Rgb r g b)
      | matrix \<Rightarrow> Rgba 0 255 70 (luma p / 255))"

definition drawCell :: "imageData \<Rightarrow> settings \<Rightarrow> nat \<Rightarrow> nat \<Rightarrow> nat \<Rightarrow> canvas_op" where
  "drawCell pixels s cols y x =
     (let index = (y * cols + x) * 4;
          charSize = fontSize s
      in FillText (densityOf s ! nat (glyphIndex pixels index s))
           (cellStyle s (pixelAt pixels index s)) (x * charSize) (y * charSize))"

definition drawAsciiFrame ::
  "canvasImageSource \<Rightarrow> nat \<Rightarrow> nat \<Rightarrow> settings \<Rightarrow> canvas_op list" where
  "drawAsciiFrame source width height s =
     (let charSize = fontSize s;
          cols = width div charSize;
          rows = height div charSize
      in if cols \<le> 0 \<or> rows \<le> 0 then []
         else (let pixels = source cols rows
               in FillRect (Css (backgroundColor s)) 0 0 width height #
                  concat (map (\<lambda>y. map (drawCell pixels s cols y) [0..<cols]) [0..<rows])))"

definition textCell :: "imageData \<Rightarrow> settings \<Rightarrow> nat \<Rightarrow> nat \<Rightarrow> nat \<Rightarrow> glyph list" where
  "textCell pixels s cols y x =
     (let index = (y * cols + x) * 4;
          c = densityOf s ! nat (glyphIndex pixels index s)
      in [c, c])"

definition getAsciiString ::
  "canvasImageSource \<Rightarrow> nat \<Rightarrow> nat \<Rightarrow> settings \<Rightarrow> glyph list" where
  "getAsciiString source width height s =
     (let charSize = fontSize s;
          cols = width div charSize;
          rows = height div charSize
      in if cols \<le> 0 \<or> rows \<le> 0 then []
         else (let pixels = source cols rows
               in concat (map (\<lambda>y. concat (map (textCell pixels s cols y) [0..<cols]) @ [0x0A])
                            [0..<rows])))"

text \<open>
  The preview render (renderFrame, lines 394--441) skips while the source has no
  dimensions, and otherwise snaps to the grid with at least one column and one row before
  it draws. The result is the size given to the full-resolution canvas and what is drawn
  on it; \<open>None\<close> is the skipped call. The copy to the display canvas is left out.
\<close>

definition renderFrame ::
  "(canvasImageSource \<times> nat \<times> nat) option \<Rightarrow> settings \<Rightarrow> (nat \<times> nat \<times> canvas_op list) option" where
  "renderFrame media s =
     (case media of
        None \<Rightarrow> None
      | Some (mediaElement, width, height) \<Rightarrow>
          if width = 0 \<or> height = 0 then None
          else (let charSize = fontSize s;
                    cols = max 1 (width div charSize);
                    rows = max 1 (height div charSize);
                    renderWidth = cols * charSize;
                    renderHeight = rows * charSize
                in Some (renderWidth, renderHeight,
                         drawAsciiFrame mediaElement renderWidth renderHeight s)))"

text \<open>The text export (copyTextToClipboard, lines 587--615); \<open>None\<close> is the early return.\<close>

definition copyTextToClipboard ::
  "(canvasImageSource \<times> nat \<times> nat) option \<Rightarrow> settings \<Rightarrow> glyph list option" where
  "copyTextToClipboard media s =
     (case media of
        None \<Rightarrow> None
      | Some (mediaElement, w, h) \<Rightarrow>
          (let charSize = fontSize s;
               cols = max 1 (w div charSize);
               rows = max 1 (h div charSize);
               snapW = cols * charSize;
               snapH = rows * charSize
           in Some (getAsciiString mediaElement snapW snapH s)))"

section \<open>The state the export jobs act on\<close>

text \<open>
  \<open>video.duration\<close> is a JavaScript number that may be \<open>NaN\<close> (no media loaded) or
  \<open>Infinity\<close> (a stream, or a file without a duration in its header); the frame count
  computed from it inherits both.
\<close>

datatype jsnum = NaN | PosInf | Num real

definition js_min :: "jsnum \<Rightarrow> real \<Rightarrow> jsnum" where
  "js_min x y = (case x of NaN \<Rightarrow> NaN | PosInf \<Rightarrow> Num y | Num v \<Rightarrow> Num (min v y))"

text \<open>
  \<open>Math.floor(x * k)\<close> for a positive constant \<open>k\<close>; \<open>r\<close> rounds the exact product to the
  double the multiplication returns.
\<close>

definition js_floor_times :: "(real \<Rightarrow> real) \<Rightarrow> jsnum \<Rightarrow> real \<Rightarrow> jsnum" where
  "js_floor_times r x k =
     (case x of NaN \<Rightarrow> NaN | PosInf \<Rightarrow> PosInf | Num v \<Rightarrow> Num (of_int \<lfloor>r (v * k)\<rfloor>))"

text \<open>The loop test \<open>i < totalFrames\<close>: false against \<open>NaN\<close>.\<close>

definition js_less :: "nat \<Rightarrow> jsnum \<Rightarrow> bool" where
  "js_less i x = (case x of NaN \<Rightarrow> False | PosInf \<Rightarrow> True | Num v \<Rightarrow> real i < v)"

text \<open>
  \<open>Math.round((i / totalFrames) * 100)\<close>: the quotient and the product are rounded by \<open>r\<close>,
  and \<open>Math.round\<close> gives the nearest integer, halves going up. Against \<open>Infinity\<close> the
  quotient is 0. Inside the loops \<open>totalFrames\<close> is never \<open>NaN\<close>.
\<close>

definition roundPercent :: "(real \<Rightarrow> real) \<Rightarrow> nat \<Rightarrow> jsnum \<Rightarrow> int" where
  "roundPercent r i totalFrames =
     (case totalFrames of
        NaN \<Rightarrow> 0
      | PosInf \<Rightarrow> 0
      | Num n \<Rightarrow> \<lfloor>r (r (real i / n) * 100) + 1 / 2\<rfloor>)"

datatype recordingState = idle | recording | processing_hq | processing_hq_audio | processing_gif

datatype sourceType = SrcVideo | SrcImage | SrcWebcam

type_synonym rgb = "nat \<times> nat \<times> nat"

record gif_frame =
  gf_data :: "nat list"
  gf_width :: nat
  gf_height :: nat
  gf_palette :: "rgb list"
  gf_delay :: int

record video_frame =
  vf_drawn :: "canvas_op list"
  vf_timestamp :: real
  vf_keyFrame :: bool

record audioBuffer =
  sampleRate :: nat
  numberOfChannels :: nat
  samples :: "nat \<Rightarrow> nat \<Rightarrow> real"
  sample_count :: nat

text \<open>
  The container under construction: the video track with the frames handed to the video
  encoder, and the audio track when one was added (the chunking of the decoded audio,
  lines 854--871, is not modelled: the track stands for the whole buffer).
\<close>

record mp4 =
  mp4_width :: nat
  mp4_height :: nat
  mp4_video :: "video_frame list"
  mp4_audio :: "audioBuffer option"

datatype download = GifFile "gif_frame list" | Mp4File mp4

datatype console_entry = Error string | Warn string string

text \<open>
  What a seek primitive did: it resolved at once without touching the position, or it
  assigned \<open>video.currentTime\<close> and waited the given number of milliseconds.
\<close>

datatype seek_event = Resolved_at_once real | Seek_issued real nat

text \<open>
  The React state, the video element and the export canvas, with what the jobs leave
  behind for an observer: the alerts, the console, the downloads, the frames written to
  the GIF encoder, the container, and two logs kept for the statements below
  (\<open>progress_log\<close>: every number passed to \<open>setRenderProgress\<close>; \<open>seek_log\<close>: every
  seek).
\<close>

record app =
  source_type :: "sourceType option"
  source_url :: "string option"
  app_settings :: settings
  isPlaying :: bool
  isMuted :: bool
  recordingState :: recordingState
  renderProgress :: "int option"
  renderStatus :: string
  video_currentTime :: real
  video_muted :: bool
  video_paused :: bool
  video_duration :: jsnum
  videoWidth :: nat
  videoHeight :: nat
  canvas_width :: nat
  canvas_height :: nat
  gif :: "gif_frame list"
  mp4_output :: mp4
  progress_log :: "int list"
  seek_log :: "seek_event list"
  console :: "console_entry list"
  alerts :: "string list"
  downloads :: "download list"

datatype audio_result = Decoded audioBuffer | Decode_throws string

text \<open>
  What the browser and the encoders do during one job: whether the element references and
  the 2d contexts exist, which encoders the browser has, the decoded frame shown in
  iteration \<open>i\<close>, after how many milliseconds the \<open>seeked\<close> event of iteration \<open>i\<close> fires
  (\<open>None\<close>: never), an exception thrown by a browser or encoder call in iteration \<open>i\<close>
  before the frame is handed over, the colour quantiser, the result of decoding the audio,
  exceptions thrown while the encoders are set up (before the \<open>try\<close> block of
  startOfflineRender), while the audio is encoded, and while the file is finished, and
  the rounding of an exact product or quotient to the double the engine computes.
\<close>

record env =
  refs_ready :: bool
  ctx_ready :: bool
  hasVideoEncoder :: bool
  hasAudioEncoder :: bool
  frame_at :: "nat \<Rightarrow> canvasImageSource"
  seeked_after :: "nat \<Rightarrow> nat option"
  throws_at :: "nat \<Rightarrow> string option"
  quantize :: "canvas_op list \<Rightarrow> rgb list"
  applyPalette :: "canvas_op list \<Rightarrow> rgb list \<Rightarrow> nat list"
  decodeAudioData :: audio_result
  setup_throws :: "string option"
  audio_encode_throws :: "string option"
  finalize_throws :: "string option"
  rnd :: "real \<Rightarrow> real"

definition setRenderProgress :: "int option \<Rightarrow> app \<Rightarrow> app" where
  "setRenderProgress p a =
     a\<lparr>renderProgress := p,
       progress_log := progress_log a @ (case p of None \<Rightarrow> [] | Some v \<Rightarrow> [v])\<rparr>"

definition setRenderStatus :: "string \<Rightarrow> app \<Rightarrow> app" where
  "setRenderStatus m a = a\<lparr>renderStatus := m\<rparr>"

section \<open>Seeking (lines 664--685 and 879--892)\<close>

text \<open>
  The promise resolves when \<open>seeked\<close> fires or when the timer of 500 ms does, whichever
  comes first; the result is the time waited.
\<close>

definition await_seeked :: "nat option \<Rightarrow> nat" where
  "await_seeked latency = (case latency of None \<Rightarrow> 500 | Some l \<Rightarrow> min l 500)"

definition seekTo :: "nat option \<Rightarrow> real \<Rightarrow> app \<Rightarrow> app" where
  "seekTo latency time a =
     (if \<bar>video_currentTime a - time\<bar> < 0.01
      then a\<lparr>seek_log := seek_log a @ [Resolved_at_once time]\<rparr>
      else a\<lparr>video_currentTime := time,
             seek_log := seek_log a @ [Seek_issued time (await_seeked latency)]\<rparr>)"

text \<open>The seek written out inside the loop of startOfflineRender.\<close>

definition hq_seek :: "nat option \<Rightarrow> real \<Rightarrow> app \<Rightarrow> app" where
  "hq_seek latency time a =
     a\<lparr>video_currentTime := time,
       seek_log := seek_log a @ [Seek_issued time (await_seeked latency)]\<rparr>"

section \<open>The frame loop of both exporters\<close>

text \<open>
  \<open>for (let i = 0; i < totalFrames; i++) { body }\<close> inside a \<open>try\<close>: the body returns the
  exception it threw, if any, and the state it reached. With \<open>totalFrames = Infinity\<close> the
  loop need not return; not returning is \<open>None\<close>.
\<close>

partial_function (option) for_loop ::
  "(nat \<Rightarrow> app \<Rightarrow> string option \<times> app) \<Rightarrow> jsnum \<Rightarrow> nat \<Rightarrow> app \<Rightarrow> (string option \<times> app) option" where
  "for_loop body totalFrames i a =
     (if js_less i totalFrames
      then (case body i a of
              (Some x, a') \<Rightarrow> Some (Some x, a')
            | (None, a') \<Rightarrow> for_loop body totalFrames (Suc i) a')
      else Some (None, a))"

text \<open>The \<open>finally\<close> block of both jobs (lines 735--741 and 921--927).\<close>

definition cleanup :: "app \<Rightarrow> app" where
  "cleanup a =
     (let a = setRenderProgress None a;
          a = setRenderStatus [] a
      in a\<lparr>recordingState := idle, video_currentTime := 0, video_muted := isMuted a\<rparr>)"

section \<open>GIF export (startGifExport, lines 631--742)\<close>

definition gif_body ::
  "env \<Rightarrow> settings \<Rightarrow> nat \<Rightarrow> nat \<Rightarrow> jsnum \<Rightarrow> nat \<Rightarrow> app \<Rightarrow> string option \<times> app" where
  "gif_body e s width height totalFrames i a =
     (let fps = 10;
          time = rnd e (real i / fps);
          a = seekTo (seeked_after e i) time a
      in case throws_at e i of
           Some x \<Rightarrow> (Some x, a)
         | None \<Rightarrow>
             (let drawn = drawAsciiFrame (frame_at e i) width height s;
                  palette = quantize e drawn;
                  (palette, data) =
                    (if palette \<noteq> [] then (palette, applyPalette e drawn palette)
                     else ([(0, 0, 0)], replicate (width * height) 0));
                  a = a\<lparr>gif := gif a @
                         [\<lparr>gf_data = data, gf_width = width, gf_height = height,
                           gf_palette = palette, gf_delay = \<lfloor>rnd e (1000 / fps) + 1 / 2\<rfloor>\<rparr>]\<rparr>;
                  a = setRenderProgress (Some (roundPercent (rnd e) i totalFrames)) a
              in (None, a)))"

text \<open>Lines 654--656: ten frames per second, over at most fifteen seconds.\<close>

definition gif_totalFrames :: "(real \<Rightarrow> real) \<Rightarrow> jsnum \<Rightarrow> jsnum" where
  "gif_totalFrames r d =
     (let fps = 10;
          duration = js_min d 15
      in js_floor_times r duration fps)"

text \<open>Lines 640--662: the state when the loop is entered.\<close>

definition gif_setup :: "app \<Rightarrow> app" where
  "gif_setup a0 =
     (let a = a0\<lparr>isPlaying := False, video_paused := True, video_muted := True,
                 recordingState := processing_gif\<rparr>;
          a = setRenderProgress (Some 0) a;
          a = setRenderStatus ''RECORDING GIF...'' a;
          charSize = fontSize (app_settings a0);
          cols = videoWidth a div charSize;
          rows = videoHeight a div charSize;
          width = cols * charSize;
          height = rows * charSize
      in a\<lparr>canvas_width := width, canvas_height := height, gif := []\<rparr>)"

text \<open>
  Lines 722--734: after the loop the file is finished and downloaded; an exception of the
  loop or of the finishing calls is caught, logged and shown.
\<close>

definition gif_outcome :: "env \<Rightarrow> string option \<times> app \<Rightarrow> app" where
  "gif_outcome e r =
     (case r of (thrown, a) \<Rightarrow>
        (case (case thrown of Some x \<Rightarrow> Some x | None \<Rightarrow> finalize_throws e) of
           None \<Rightarrow> a\<lparr>downloads := downloads a @ [GifFile (gif a)]\<rparr>
         | Some x \<Rightarrow> a\<lparr>console := console a @ [Error x],
                        alerts := alerts a @ [''GIF Export failed: '' @ x]\<rparr>))"

text \<open>The result is \<open>None\<close> when the job never returns.\<close>

definition startGifExport :: "env \<Rightarrow> app \<Rightarrow> app option" where
  "startGifExport e a0 =
     (if \<not> refs_ready e \<or> \<not> ctx_ready e then Some a0
      else
        (let a = gif_setup a0;
             width = canvas_width a;
             height = canvas_height a;
             totalFrames = gif_totalFrames (rnd e) (video_duration a0)
         in case for_loop (gif_body e (app_settings a0) width height totalFrames) totalFrames 0 a of
              None \<Rightarrow> None
            | Some r \<Rightarrow> Some (cleanup (gif_outcome e r))))"

section \<open>HQ render (startOfflineRender, lines 744--928)\<close>

text \<open>Lines 787--795: the grid-snapped size, then made even.\<close>

definition hq_dimensions :: "nat \<Rightarrow> nat \<Rightarrow> nat \<Rightarrow> nat \<times> nat" where
  "hq_dimensions vw vh charSize =
     (let cols = vw div charSize;
          rows = vh div charSize;
          baseWidth = cols * charSize;
          baseHeight = rows * charSize;
          renderWidth = baseWidth - (baseWidth mod 2);
          renderHeight = baseHeight - (baseHeight mod 2)
      in (renderWidth, renderHeight))"

definition truthy_url :: "string option \<Rightarrow> bool" where
  "truthy_url u = (case u of None \<Rightarrow> False | Some v \<Rightarrow> v \<noteq> [])"

definition hq_body ::
  "env \<Rightarrow> settings \<Rightarrow> nat \<Rightarrow> nat \<Rightarrow> jsnum \<Rightarrow> nat \<Rightarrow> app \<Rightarrow> string option \<times> app" where
  "hq_body e s renderWidth renderHeight totalFrames i a =
     (let fps = 30;
          time = rnd e (real i / fps);
          a = hq_seek (seeked_after e i) time a
      in case throws_at e i of
           Some x \<Rightarrow> (Some x, a)
         | None \<Rightarrow>
             (let drawn = drawAsciiFrame (frame_at e i) renderWidth renderHeight s;
                  frame = \<lparr>vf_drawn = drawn,
                           vf_timestamp = rnd e (real i * rnd e (1000000 / fps)),
                           vf_keyFrame = (i mod 30 = 0)\<rparr>;
                  a = a\<lparr>mp4_output :=
                         (mp4_output a)\<lparr>mp4_video := mp4_video (mp4_output a) @ [frame]\<rparr>\<rparr>;
                  a = setRenderProgress (Some (roundPercent (rnd e) i totalFrames)) a
              in (None, a)))"

text \<open>
  Lines 762--782: the state after the optional extraction of the audio, with the decoded
  buffer if there is one. A failure to fetch or decode is logged and nothing more.
\<close>

definition hq_extract_audio :: "bool \<Rightarrow> env \<Rightarrow> app \<Rightarrow> audioBuffer option \<times> app" where
  "hq_extract_audio withAudio e a0 =
     (let a = a0\<lparr>isPlaying := False, video_paused := True, video_muted := True,
                 recordingState := (if withAudio then processing_hq_audio else processing_hq)\<rparr>;
          a = setRenderProgress (Some 0) a;
          a = setRenderStatus ''INITIALIZING...'' a
      in if withAudio \<and> truthy_url (source_url a0)
         then (let a = setRenderStatus ''EXTRACTING AUDIO...'' a
               in case decodeAudioData e of
                    Decoded buf \<Rightarrow> (Some buf, a)
                  | Decode_throws x \<Rightarrow>
                      (None, a\<lparr>console := console a @ [Warn ''Audio extraction failed'' x]\<rparr>))
         else (None, a))"

text \<open>
  Lines 784--816: the canvas takes the even size, the container gets its video track, and
  an audio track only if a buffer was decoded.
\<close>

definition hq_prepare :: "audioBuffer option \<Rightarrow> settings \<Rightarrow> app \<Rightarrow> app" where
  "hq_prepare audioBuffer s a =
     (let a = setRenderStatus ''PREPARING ENCODER...'' a;
          (renderWidth, renderHeight) = hq_dimensions (videoWidth a) (videoHeight a) (fontSize s)
      in a\<lparr>canvas_width := renderWidth, canvas_height := renderHeight,
            mp4_output := \<lparr>mp4_width = renderWidth, mp4_height = renderHeight,
                           mp4_video = [], mp4_audio = audioBuffer\<rparr>\<rparr>)"

definition hq_totalFrames :: "(real \<Rightarrow> real) \<Rightarrow> jsnum \<Rightarrow> jsnum" where
  "hq_totalFrames r d = (let fps = 30; duration = d in js_floor_times r duration fps)"

text \<open>The \<open>catch\<close> block, lines 918--920.\<close>

definition hq_catch :: "string \<Rightarrow> app \<Rightarrow> app" where
  "hq_catch x a = a\<lparr>console := console a @ [Error x], alerts := alerts a @ [''Render failed.'']\<rparr>"

text \<open>Lines 903--920: after the loop, the flush, the finalised container and its download.\<close>

definition hq_outcome :: "env \<Rightarrow> string option \<times> app \<Rightarrow> app" where
  "hq_outcome e r =
     (case r of
        (Some x, a) \<Rightarrow> hq_catch x a
      | (None, a) \<Rightarrow>
          (let a = setRenderStatus ''FINALIZING...'' a
           in case finalize_throws e of
                Some x \<Rightarrow> hq_catch x a
              | None \<Rightarrow> a\<lparr>downloads := downloads a @ [Mp4File (mp4_output a)]\<rparr>))"

text \<open>
  The result is \<open>None\<close> when the job never returns. An exception while the container and
  the encoder are set up (lines 804--834) is thrown before the \<open>try\<close> block: the job ends
  there, with the state as it is.
\<close>

definition startOfflineRender :: "bool \<Rightarrow> env \<Rightarrow> app \<Rightarrow> app option" where
  "startOfflineRender withAudio e a0 =
     (if source_type a0 \<noteq> Some SrcVideo \<or> \<not> refs_ready e then Some a0
      else if \<not> hasVideoEncoder e \<or> (withAudio \<and> \<not> hasAudioEncoder e)
      then Some (a0\<lparr>alerts := alerts a0 @
             [''HQ render requires WebCodecs support (VideoEncoder/AudioEncoder) in this browser.'']\<rparr>)
      else if \<not> ctx_ready e then Some a0
      else
        (let (audioBuffer, a) = hq_extract_audio withAudio e a0;
             s = app_settings a0;
             a = hq_prepare audioBuffer s a;
             renderWidth = canvas_width a;
             renderHeight = canvas_height a;
             totalFrames = hq_totalFrames (rnd e) (video_duration a0)
         in case setup_throws e of
              Some x \<Rightarrow> Some a
            | None \<Rightarrow>
                (let a = (if audioBuffer \<noteq> None then setRenderStatus ''ENCODING AUDIO...'' a else a)
                 in case (if audioBuffer \<noteq> None then audio_encode_throws e else None) of
                      Some x \<Rightarrow> Some (cleanup (hq_catch x a))
                    | None \<Rightarrow>
                        (let a = setRenderStatus ''RENDERING VIDEO...'' a
                         in case for_loop (hq_body e s renderWidth renderHeight totalFrames)
                                   totalFrames 0 a of
                              None \<Rightarrow> None
                            | Some r \<Rightarrow> Some (cleanup (hq_outcome e r))))))"

section \<open>Live recording (startLiveRecording, lines 931--978)\<close>

datatype track_kind = AudioKind | VideoKind

record media_track =
  track_kind :: track_kind
  track_label :: string
  is_clone :: bool

definition getVideoTracks :: "media_track list \<Rightarrow> media_track list" where
  "getVideoTracks stream = filter (\<lambda>t. track_kind t = VideoKind) stream"

definition getAudioTracks :: "media_track list \<Rightarrow> media_track list" where
  "getAudioTracks stream = filter (\<lambda>t. track_kind t = AudioKind) stream"

definition clone :: "media_track \<Rightarrow> media_track" where
  "clone t = t\<lparr>is_clone := True\<rparr>"

text \<open>
  What the recorder finds: the export canvas and the stream captured from it, the video
  element and the stream its \<open>captureStream\<close> gives (\<open>None\<close> where the browser has no such
  method), the stream of the webcam source, and the container types the browser records.
\<close>

record live_env =
  canvas_ready :: bool
  canvasStream :: "media_track list"
  videoRef_ready :: bool
  video_captureStream :: "media_track list option"
  source_stream :: "media_track list option"
  isTypeSupported :: "string \<Rightarrow> bool"

record recorder =
  mixedStream :: "media_track list"
  mimeType :: string

definition addAudioTracks :: "media_track list option \<Rightarrow> media_track list \<Rightarrow> media_track list" where
  "addAudioTracks stream mixed =
     (case stream of None \<Rightarrow> mixed | Some st \<Rightarrow> mixed @ map clone (getAudioTracks st))"

definition startLiveRecording :: "live_env \<Rightarrow> app \<Rightarrow> (app \<times> recorder) option" where
  "startLiveRecording l a0 =
     (if \<not> canvas_ready l then None
      else
        (let a = a0\<lparr>recordingState := recording\<rparr>;
             mixed = getVideoTracks (canvasStream l);
             mixed =
               (if source_type a0 = Some SrcVideo \<and> videoRef_ready l \<and>
                   video_captureStream l \<noteq> None \<and> \<not> isMuted a0
                then addAudioTracks (video_captureStream l) mixed
                else if source_type a0 = Some SrcWebcam \<and> source_stream l \<noteq> None \<and> \<not> isMuted a0
                then addAudioTracks (source_stream l) mixed
                else mixed);
             preferredMime = ''video/webm;codecs=vp9,opus'';
             fallbackMime = ''video/webm;codecs=vp8,opus'';
             mime = (if isTypeSupported l preferredMime then preferredMime
                     else if isTypeSupported l fallbackMime then fallbackMime
                     else ''video/webm'');
             a = (if source_type a0 = Some SrcVideo \<and> videoRef_ready l
                  then a\<lparr>video_currentTime := 0\<rparr> else a);
             a = (if \<not> isPlaying a0 then a\<lparr>isPlaying := True\<rparr> else a)
         in Some (a, \<lparr>mixedStream = mixed, mimeType = mime\<rparr>)))"

section \<open>Predicates and example values used in the statements\<close>

text \<open>
  The numbers a job reported as progress are what it appended to the log: they start with
  0, never decrease and stay below 100.
\<close>

definition progress_monotone :: "int list \<Rightarrow> int list \<Rightarrow> bool" where
  "progress_monotone before after =
     (take (length before) after = before \<and>
      (let ps = drop (length before) after
       in ps \<noteq> [] \<and> hd ps = 0 \<and> sorted ps \<and> list_all (\<lambda>p. 0 \<le> p \<and> p < 100) ps))"

text \<open>
  A video file of 320 by 180 pixels and 1.25 seconds, playing unmuted at second 5, in a
  browser where every call succeeds except the decoding of the audio; the frames are
  black. The arithmetic of the example is exact: it is used only where every product and
  quotient that is looked at is a double, so that rounding changes nothing.
\<close>

definition is_glyph :: "canvas_op \<Rightarrow> bool" where
  "is_glyph c = (case c of FillText g f x y \<Rightarrow> True | FillRect f x y w h \<Rightarrow> False)"

definition glyphs_drawn :: "canvas_op list \<Rightarrow> nat" where
  "glyphs_drawn drawn = length (filter is_glyph drawn)"

definition example_source :: canvasImageSource where
  "example_source cols rows index = 0"

definition example_app :: app where
  "example_app =
     \<lparr> source_type = Some SrcVideo, source_url = Some ''blob:clip'',
       app_settings = DEFAULT_SETTINGS, isPlaying = True, isMuted = False,
       recordingState = idle, renderProgress = None, renderStatus = [],
       video_currentTime = 5, video_muted = False, video_paused = False,
       video_duration = Num 1.25, videoWidth = 320, videoHeight = 180,
       canvas_width = 320, canvas_height = 176, gif = [],
       mp4_output = \<lparr>mp4_width = 0, mp4_height = 0, mp4_video = [], mp4_audio = None\<rparr>,
       progress_log = [], seek_log = [], console = [], alerts = [], downloads = [] \<rparr>"

definition example_env :: env where
  "example_env =
     \<lparr> refs_ready = True, ctx_ready = True, hasVideoEncoder = True, hasAudioEncoder = True,
       frame_at = (\<lambda>i. example_source), seeked_after = (\<lambda>i. Some 20),
       throws_at = (\<lambda>i. None), quantize = (\<lambda>drawn. [(0, 0, 0), (255, 255, 255)]),
       applyPalette = (\<lambda>drawn palette. []),
       decodeAudioData = Decode_throws ''EncodingError'',
       setup_throws = None, audio_encode_throws = None, finalize_throws = None,
       rnd = (\<lambda>x. x) \<rparr>"

text \<open>
  A webcam with a microphone, recorded while the mute flag is set, in a browser that
  records VP9.
\<close>

definition example_live :: live_env where
  "example_live =
     \<lparr> canvas_ready = True,
       canvasStream = [\<lparr>track_kind = VideoKind, track_label = ''canvas'', is_clone = False\<rparr>],
       videoRef_ready = True,
       video_captureStream = None,
       source_stream =
         Some [\<lparr>track_kind = VideoKind, track_label = ''camera'', is_clone = False\<rparr>,
               \<lparr>track_kind = AudioKind, track_label = ''microphone'', is_clone = False\<rparr>],
       isTypeSupported = (\<lambda>m. m = ''video/webm;codecs=vp9,opus'') \<rparr>"

definition example_webcam_app :: app where
  "example_webcam_app = example_app\<lparr>source_type := Some SrcWebcam, source_url := None,
     isMuted := True, video_muted := True, video_duration := PosInf\<rparr>"

section \<open>Properties of the tone transform and of the glyph mapping\<close>

lemma clamp255_range: "0 \<le> clamp255 c \<and> clamp255 c \<le> 255"
  by (simp add: clamp255_def)

lemma clamp255_id: "0 \<le> c \<Longrightarrow> c \<le> 255 \<Longrightarrow> clamp255 c = c"
  by (simp add: clamp255_def)

lemma gamma_channel_skip: "clamp255 (255 * (clamp255 c / 255) powr 1) = clamp255 c"
proof -
  have "0 \<le> clamp255 c / 255" by (simp add: clamp255_def)
  then have "(clamp255 c / 255) powr 1 = clamp255 c / 255" by simp
  then show ?thesis using clamp255_range [of c] by (simp add: clamp255_id)
qed

lemma gamma_channel_clamp:
  assumes "0 < k"
  shows "clamp255 (255 * (max 0 c / 255) powr k) = clamp255 (255 * (clamp255 c / 255) powr k)"
proof (cases "c \<le> 255")
  case True
  then show ?thesis by (simp add: clamp255_def min_def)
next
  case False
  then have c: "255 < c" by simp
  then have "1 \<le> max 0 c / 255" by simp
  then have "1 \<le> (max 0 c / 255) powr k"
    using assms by (simp add: ge_one_powr_ge_zero)
  then have l: "clamp255 (255 * (max 0 c / 255) powr k) = 255"
    by (simp add: clamp255_def)
  have "clamp255 c = 255" using c by (simp add: clamp255_def)
  then have "clamp255 (255 * (clamp255 c / 255) powr k) = 255"
    by (simp add: clamp255_def)
  with l show ?thesis by simp
qed

lemma gamma_channel:
  assumes "0 < g"
  shows "clamp255 (if g \<noteq> 1 then 255 * (max 0 c / 255) powr (1 / g) else c)
         = clamp255 (255 * (clamp255 c / 255) powr (1 / g))"
proof (cases "g = 1")
  case True
  then show ?thesis using gamma_channel_skip [of c] by simp
next
  case False
  then show ?thesis using gamma_channel_clamp [of "1 / g" c] assms by simp
qed

lemma skip_brightness:
  "(if k \<noteq> 1 then (r * k, g * k, b * k) else (r, g, b)) = (r * k, g * k, b * (k::real))"
  by simp

lemma skip_contrast:
  "(if k \<noteq> 1 then ((r - 128) * k + 128, (g - 128) * k + 128, (b - 128) * k + 128)
    else (r, g, b)) = ((r - 128) * k + 128, (g - 128) * k + 128, (b - 128) * (k::real) + 128)"
  by simp

lemma skip_saturation:
  "(if k \<noteq> 1
    then (let gray = y in (gray + (r - gray) * k, gray + (g - gray) * k, gray + (b - gray) * k))
    else (r, g, b)) = (y + (r - y) * k, y + (g - y) * k, y + (b - y) * (k::real))"
  by simp

lemma preprocessPixel_alt:
  "preprocessPixel r0 g0 b0 s =
     (let r1 = r0 * brightness s; g1 = g0 * brightness s; b1 = b0 * brightness s;
          r2 = (r1 - 128) * contrast s + 128; g2 = (g1 - 128) * contrast s + 128;
          b2 = (b1 - 128) * contrast s + 128;
          gray = 0.2126 * r2 + 0.7152 * g2 + 0.0722 * b2;
          r3 = gray + (r2 - gray) * saturation s; g3 = gray + (g2 - gray) * saturation s;
          b3 = gray + (b2 - gray) * saturation s
      in (clamp255 (if gamma s \<noteq> 1 then 255 * (max 0 r3 / 255) powr (1 / gamma s) else r3),
          clamp255 (if gamma s \<noteq> 1 then 255 * (max 0 g3 / 255) powr (1 / gamma s) else g3),
          clamp255 (if gamma s \<noteq> 1 then 255 * (max 0 b3 / 255) powr (1 / gamma s) else b3)))"
  unfolding preprocessPixel_def skip_brightness prod.case skip_contrast skip_saturation
  by (cases "gamma s = 1") (simp_all add: Let_def clamp255_def)

lemma preprocessPixel_refines_spec:
  assumes "0 < gamma s"
  shows "preprocessPixel r g b s = adjust_spec r g b s"
  unfolding preprocessPixel_alt adjust_spec_def Let_def prod.case
  using gamma_channel [OF assms] by simp

lemma preprocessPixel_range:
  "preprocessPixel r g b s = (r', g', b') \<Longrightarrow>
     0 \<le> r' \<and> r' \<le> 255 \<and> 0 \<le> g' \<and> g' \<le> 255 \<and> 0 \<le> b' \<and> b' \<le> 255"
  unfolding preprocessPixel_alt Let_def using clamp255_range by auto

lemma densityOf_nonempty: "densityOf s \<noteq> []"
proof (cases "densityKey s = density s")
  case True
  show ?thesis
  proof (cases "map_of DENSITY_SETS (density s)")
    case None
    then have "densityKey s = ''standard''" by (simp add: densityKey_def)
    then show ?thesis by (simp add: densityOf_def DENSITY_SETS_def)
  next
    case (Some d)
    show ?thesis
    proof (cases "d = []")
      case True
      with Some have "densityKey s = ''standard''" by (simp add: densityKey_def)
      then show ?thesis by (simp add: densityOf_def DENSITY_SETS_def)
    next
      case False
      with Some True show ?thesis by (simp add: densityOf_def)
    qed
  qed
next
  case False
  then have "densityKey s = ''standard''" by (simp add: densityKey_def split: if_splits)
  then show ?thesis by (simp add: densityOf_def DENSITY_SETS_def)
qed

lemma charIndex_range:
  assumes "0 < len"
  shows "0 \<le> charIndex avg len inverted \<and> charIndex avg len inverted \<le> int len - 1"
  using assms by (simp add: charIndex_def Let_def)

lemma clamp_mirror:
  fixes c n :: int
  assumes "1 \<le> n"
  shows "max 0 (min (n - 1) (n - 1 - c)) = n - 1 - max 0 (min (n - 1) c)"
  using assms by (auto simp: min_def max_def)

lemma charIndex_invert:
  assumes "0 < len"
  shows "charIndex avg len True = int len - 1 - charIndex avg len False"
proof -
  have "1 \<le> int len" using assms by simp
  from clamp_mirror [OF this, of "\<lfloor>(avg / 255) * real len\<rfloor>"] show ?thesis
    unfolding charIndex_def Let_def by (simp only: if_True if_False)
qed

lemma densityOf_invert: "densityOf (s\<lparr>invert := v\<rparr>) = densityOf s"
  by (simp add: densityOf_def densityKey_def)

lemma pixelAt_invert: "pixelAt pixels index (s\<lparr>invert := v\<rparr>) = pixelAt pixels index s"
  by (simp add: pixelAt_def preprocessPixel_def)

text \<open>
  Claim C4. For every density set, every pixel and the same settings otherwise, the glyph
  index computed with the invert flag set is the length of the density set minus one,
  minus the index computed with the flag cleared, and both indices lie between zero and
  the length minus one. The tone settings are those the caller guarantees (a positive
  gamma), where the model of the pixel transform is the code.
\<close>

theorem invert_mirrors_glyph_index:
  assumes "0 < gamma s"
  shows "glyphIndex pixels index (s\<lparr>invert := True\<rparr>)
           = int (length (densityOf s)) - 1 - glyphIndex pixels index (s\<lparr>invert := False\<rparr>)
         \<and> 0 \<le> glyphIndex pixels index (s\<lparr>invert := True\<rparr>)
         \<and> glyphIndex pixels index (s\<lparr>invert := True\<rparr>) \<le> int (length (densityOf s)) - 1
         \<and> 0 \<le> glyphIndex pixels index (s\<lparr>invert := False\<rparr>)
         \<and> glyphIndex pixels index (s\<lparr>invert := False\<rparr>) \<le> int (length (densityOf s)) - 1"
proof -
  have len: "0 < length (densityOf s)" using densityOf_nonempty [of s] by simp
  show ?thesis
    unfolding glyphIndex_def densityOf_invert pixelAt_invert
    using charIndex_invert [OF len, of "luma (pixelAt pixels index s)"]
      charIndex_range [OF len, of "luma (pixelAt pixels index s)" True]
      charIndex_range [OF len, of "luma (pixelAt pixels index s)" False]
    by simp
qed

theorem invert_mirrors_glyph_index_witness:
  "0 < gamma DEFAULT_SETTINGS \<and>
   glyphIndex (\<lambda>i. 255) 0 (DEFAULT_SETTINGS\<lparr>invert := True\<rparr>) = 0 \<and>
   glyphIndex (\<lambda>i. 255) 0 (DEFAULT_SETTINGS\<lparr>invert := False\<rparr>) = 9"
proof -
  have g: "0 < gamma DEFAULT_SETTINGS" by (simp add: DEFAULT_SETTINGS_def)
  have n: "glyphIndex (\<lambda>i. 255) 0 (DEFAULT_SETTINGS\<lparr>invert := False\<rparr>) = 9"
    by (simp add: glyphIndex_def pixelAt_def preprocessPixel_def luma_def charIndex_def
        densityOf_def densityKey_def DENSITY_SETS_def DEFAULT_SETTINGS_def Let_def)
  have l: "length (densityOf DEFAULT_SETTINGS) = 10"
    by (simp add: densityOf_def densityKey_def DENSITY_SETS_def DEFAULT_SETTINGS_def)
  from invert_mirrors_glyph_index [OF g, of "\<lambda>i. 255" 0] n l g show ?thesis by simp
qed

text \<open>
  Claim C5. For a positive gamma, \<open>preprocessPixel\<close> computes what the specification's
  wording computes: brightness, then contrast around 128, then the saturation blend
  towards the luma, then the gamma power of the channel clamped to \<open>[0, 255]\<close>, then the
  final clamp, with every step applied; so leaving out a step whose parameter is 1, as the
  code does, changes nothing. Every output channel lies in \<open>[0, 255]\<close>. This is a
  statement about exact arithmetic.
\<close>

theorem tone_pipeline_follows_spec_order:
  assumes "0 < gamma s"
  shows "preprocessPixel r g b s = adjust_spec r g b s \<and>
         (case preprocessPixel r g b s of
            (r', g', b') \<Rightarrow> 0 \<le> r' \<and> r' \<le> 255 \<and> 0 \<le> g' \<and> g' \<le> 255 \<and> 0 \<le> b' \<and> b' \<le> 255)"
proof -
  obtain r' g' b' where p: "preprocessPixel r g b s = (r', g', b')"
    by (cases "preprocessPixel r g b s") auto
  from preprocessPixel_range [OF p] p preprocessPixel_refines_spec [OF assms, of r g b]
  show ?thesis by simp
qed

theorem tone_pipeline_follows_spec_order_witness:
  "0 < gamma (DEFAULT_SETTINGS\<lparr>gamma := 2\<rparr>) \<and>
   preprocessPixel 200 100 50 (DEFAULT_SETTINGS\<lparr>gamma := 2\<rparr>)
     = adjust_spec 200 100 50 (DEFAULT_SETTINGS\<lparr>gamma := 2\<rparr>)"
proof -
  have g: "0 < gamma (DEFAULT_SETTINGS\<lparr>gamma := 2\<rparr>)" by simp
  from tone_pipeline_follows_spec_order [OF g, of 200 100 50] g show ?thesis by simp
qed

text \<open>
  Claim C6. With brightness, contrast, saturation and gamma all equal to 1, the transform
  returns every channel triple in \<open>[0, 255]\<close> unchanged.
\<close>

theorem neutral_tone_is_identity:
  assumes "brightness s = 1" and "contrast s = 1" and "saturation s = 1" and "gamma s = 1"
    and "0 \<le> r" and "r \<le> 255" and "0 \<le> g" and "g \<le> 255" and "0 \<le> b" and "b \<le> 255"
  shows "preprocessPixel r g b s = (r, g, b)"
  using assms by (simp add: preprocessPixel_def)

theorem neutral_tone_is_identity_witness:
  "preprocessPixel 12 200 255 (DEFAULT_SETTINGS\<lparr>contrast := 1, brightness := 1\<rparr>) = (12, 200, 255)"
  using neutral_tone_is_identity [of "DEFAULT_SETTINGS\<lparr>contrast := 1, brightness := 1\<rparr>" 12 200 255]
  by (simp add: DEFAULT_SETTINGS_def)

section \<open>The frame loop and the two export jobs\<close>

lemma for_loop_NaN: "for_loop body NaN i a = Some (None, a)"
  by (subst for_loop.simps) (simp add: js_less_def)

lemma for_loop_Num_returns: "\<exists>r. for_loop body (Num n) i a = Some r"
proof (induction "nat \<lceil>n\<rceil> - i" arbitrary: i a)
  case 0
  then have "\<not> js_less i (Num n)" by (simp add: js_less_def)
  then show ?case by (subst for_loop.simps) simp
next
  case (Suc k)
  show ?case
  proof (cases "js_less i (Num n)")
    case False
    then show ?thesis by (subst for_loop.simps) simp
  next
    case True
    obtain x a' where b: "body i a = (x, a')" by (cases "body i a") auto
    show ?thesis
    proof (cases x)
      case None
      from Suc(2) have "k = nat \<lceil>n\<rceil> - Suc i" by simp
      from Suc(1) [OF this, of a'] obtain r where "for_loop body (Num n) (Suc i) a' = Some r" ..
      with True b None show ?thesis by (subst for_loop.simps) simp
    next
      case (Some y)
      with True b show ?thesis by (subst for_loop.simps) simp
    qed
  qed
qed

lemma for_loop_rule:
  assumes run: "for_loop body tf i a = Some (x, a')"
    and init: "I i a"
    and step: "\<And>i a a'. I i a \<Longrightarrow> js_less i tf \<Longrightarrow> body i a = (None, a') \<Longrightarrow> I (Suc i) a'"
    and thrown: "\<And>i a y a'. I i a \<Longrightarrow> js_less i tf \<Longrightarrow> body i a = (Some y, a') \<Longrightarrow> Q (Some y) a'"
    and finished: "\<And>i a. I i a \<Longrightarrow> \<not> js_less i tf \<Longrightarrow> Q None a"
  shows "Q x a'"
proof -
  have "b = body \<Longrightarrow> t = tf \<Longrightarrow> I i a \<Longrightarrow> Q (fst r) (snd r)"
    if "for_loop b t i a = Some r" for b t r
  proof (induction b t i a r rule: for_loop.raw_induct)
    case (1 loop b t i a r)
    note eq = "1.hyps" and b_def = "1.prems"(1) and t_def = "1.prems"(2) and inv = "1.prems"(3)
    show ?case
    proof (cases "js_less i tf")
      case False
      with eq t_def have "r = (None, a)" by simp
      with finished [OF inv False] show ?thesis by simp
    next
      case True
      obtain y a1 where b: "body i a = (y, a1)" by (cases "body i a") auto
      show ?thesis
      proof (cases y)
        case None
        with True b eq b_def t_def have "loop b t (Suc i) a1 = Some r" by simp
        from "1.IH" [OF this b_def t_def step [OF inv True]] b None show ?thesis by simp
      next
        case (Some z)
        with True b eq b_def t_def have "r = (Some z, a1)" by simp
        with thrown [OF inv True] b Some show ?thesis by simp
      qed
    qed
  qed fact
  from this [OF run refl refl init] show ?thesis by simp
qed


text \<open>
  What is used of the rounding to a double: it is monotone, and it leaves a double as it
  is; the doubles needed are 0, 150, 509/512 and 12725/128.
\<close>

lemma roundPercent_mono:
  assumes mono: "\<And>x y. x \<le> y \<Longrightarrow> r x \<le> r y" and "0 < k" and "i \<le> j"
  shows "roundPercent r i (Num (of_int k)) \<le> roundPercent r j (Num (of_int k))"
proof -
  have "real i / of_int k \<le> real j / of_int k"
    using assms(2,3) by (simp add: divide_right_mono)
  then have "r (real i / of_int k) \<le> r (real j / of_int k)" by (rule mono)
  then have "r (real i / of_int k) * 100 \<le> r (real j / of_int k) * 100"
    by (rule mult_right_mono) simp
  then have "r (r (real i / of_int k) * 100) \<le> r (r (real j / of_int k) * 100)" by (rule mono)
  then have "r (r (real i / of_int k) * 100) + 1 / 2 \<le> r (r (real j / of_int k) * 100) + 1 / 2"
    by (rule add_right_mono)
  then show ?thesis unfolding roundPercent_def jsnum.case by (rule floor_mono)
qed

lemma roundPercent_nonneg:
  assumes mono: "\<And>x y. x \<le> y \<Longrightarrow> r x \<le> r y" and zero: "r 0 = 0" and "0 < k"
  shows "0 \<le> roundPercent r i (Num (of_int k))"
proof -
  have "0 \<le> real i / of_int k" using assms(3) by simp
  then have "r 0 \<le> r (real i / of_int k)" by (rule mono)
  then have "0 \<le> r (real i / of_int k) * 100" using zero by simp
  then have "r 0 \<le> r (r (real i / of_int k) * 100)" by (rule mono)
  then have "0 \<le> r (r (real i / of_int k) * 100) + 1 / 2" using zero by simp
  then show ?thesis by (simp add: roundPercent_def)
qed

lemma roundPercent_below_100:
  assumes mono: "\<And>x y. x \<le> y \<Longrightarrow> r x \<le> r y"
    and q: "r (509 / 512) = 509 / 512" and m: "r (12725 / 128) = 12725 / 128"
    and "int i < k" and "k \<le> 150"
  shows "roundPercent r i (Num (of_int k)) < 100"
proof -
  have kpos: "0 < k" using assms(4) by linarith
  have "real i * 512 \<le> 509 * real_of_int k" using assms(4,5) by linarith
  then have "real i / of_int k \<le> 509 / 512" using kpos by (simp add: field_simps)
  then have "r (real i / of_int k) \<le> r (509 / 512)" by (rule mono)
  then have "r (real i / of_int k) * 100 \<le> 12725 / 128" using q by simp
  then have "r (r (real i / of_int k) * 100) \<le> r (12725 / 128)" by (rule mono)
  then have "r (r (real i / of_int k) * 100) + 1 / 2 < 100" using m by simp
  then show ?thesis by (simp add: roundPercent_def floor_less_iff)
qed

lemma reported_progress_rising:
  assumes mono: "\<And>x y. x \<le> y \<Longrightarrow> r x \<le> r y" and zero: "r 0 = 0"
    and q: "r (509 / 512) = 509 / 512" and m: "r (12725 / 128) = 12725 / 128"
    and "n \<le> nat k" and "k \<le> 150"
  shows "sorted (0 # map (\<lambda>i. roundPercent r i (Num (of_int k))) [0..<n]) \<and>
         (\<forall>p \<in> set (map (\<lambda>i. roundPercent r i (Num (of_int k))) [0..<n]). 0 \<le> p \<and> p < 100)"
proof -
  let ?f = "\<lambda>i. roundPercent r i (Num (of_int k))"
  have range: "0 \<le> ?f i \<and> ?f i < 100" if "i < n" for i
  proof -
    from that assms(5) have ik: "int i < k" by linarith
    then have "0 < k" by linarith
    from roundPercent_nonneg [of r k i, OF mono zero this]
      roundPercent_below_100 [of r i k, OF mono q m ik assms(6)]
    show ?thesis by simp
  qed
  have rising: "?f i \<le> ?f j" if "i \<le> j" and "j < n" for i j
  proof -
    from that(2) assms(5) have "0 < k" by linarith
    from roundPercent_mono [of r k i j, OF mono this that(1)] show ?thesis .
  qed
  have "sorted (map ?f [0..<n])"
    using rising by (auto simp: sorted_iff_nth_mono)
  with range show ?thesis by auto
qed

lemma gif_body_thrown:
  assumes "gif_body e s w h tf i a = (Some x, a')"
  shows "gif a' = gif a \<and> progress_log a' = progress_log a \<and> isMuted a' = isMuted a \<and>
         throws_at e i = Some x"
  using assms
  by (auto simp: gif_body_def seekTo_def setRenderProgress_def Let_def
      split: option.splits if_splits prod.splits)

lemma gif_body_frame:
  assumes "gif_body e s w h tf i a = (None, a')"
  shows "length (gif a') = Suc (length (gif a)) \<and>
         progress_log a' = progress_log a @ [roundPercent (rnd e) i tf] \<and>
         isMuted a' = isMuted a"
  using assms
  by (auto simp: gif_body_def seekTo_def setRenderProgress_def Let_def
      split: option.splits if_splits prod.splits)

lemma gif_setup_fields:
  "gif (gif_setup a) = [] \<and> progress_log (gif_setup a) = progress_log a @ [0] \<and>
   isMuted (gif_setup a) = isMuted a"
  by (simp add: gif_setup_def setRenderProgress_def setRenderStatus_def Let_def)

lemma gif_outcome_fields:
  "gif (gif_outcome e (x, a)) = gif a \<and> progress_log (gif_outcome e (x, a)) = progress_log a \<and>
   isMuted (gif_outcome e (x, a)) = isMuted a"
  by (simp add: gif_outcome_def split: option.splits)

lemma cleanup_fields:
  "renderProgress (cleanup a) = None \<and> renderStatus (cleanup a) = [] \<and>
   recordingState (cleanup a) = idle \<and> video_currentTime (cleanup a) = 0 \<and>
   video_muted (cleanup a) = isMuted a"
  by (simp add: cleanup_def setRenderProgress_def setRenderStatus_def Let_def)

lemma cleanup_keeps:
  "gif (cleanup a) = gif a \<and> progress_log (cleanup a) = progress_log a \<and>
   isMuted (cleanup a) = isMuted a \<and> mp4_output (cleanup a) = mp4_output a \<and>
   console (cleanup a) = console a \<and> downloads (cleanup a) = downloads a \<and>
   alerts (cleanup a) = alerts a \<and>
   canvas_width (cleanup a) = canvas_width a \<and> canvas_height (cleanup a) = canvas_height a"
  by (simp add: cleanup_def setRenderProgress_def setRenderStatus_def Let_def)

text \<open>
  The loop of the GIF export over a finite frame count: one frame and one percentage per
  iteration run to its end, and all of them when nothing throws.
\<close>

lemma gif_loop_Num:
  assumes run: "for_loop (gif_body e s w h (Num (of_int k))) (Num (of_int k)) 0 a = Some (x, a')"
    and g: "gif a = []" and pl: "progress_log a = pl0 @ [0]"
  shows "length (gif a') \<le> nat k \<and>
         ((\<forall>i. throws_at e i = None) \<longrightarrow> length (gif a') = nat k) \<and>
         isMuted a' = isMuted a \<and>
         progress_log a' =
           pl0 @ 0 # map (\<lambda>i. roundPercent (rnd e) i (Num (of_int k))) [0..<length (gif a')]"
proof -
  let ?tf = "Num (of_int k)"
  let ?log = "\<lambda>b. progress_log b =
                pl0 @ 0 # map (\<lambda>i. roundPercent (rnd e) i ?tf) [0..<length (gif b)]"
  let ?I = "\<lambda>i b. length (gif b) = i \<and> int i \<le> max 0 k \<and> isMuted b = isMuted a \<and> ?log b"
  let ?Q = "\<lambda>(y :: string option) b.
             length (gif b) \<le> nat k \<and>
             ((\<forall>i. throws_at e i = None) \<longrightarrow> length (gif b) = nat k) \<and>
             isMuted b = isMuted a \<and> ?log b"
  have init: "?I 0 a" using g pl by simp
  have step: "?I (Suc i) b'"
    if inv: "?I i b" and lt: "js_less i ?tf" and body: "gif_body e s w h ?tf i b = (None, b')"
    for i b b'
  proof -
    from lt have ik: "int i < k" by (simp add: js_less_def)
    from gif_body_frame [OF body] inv ik show ?thesis by simp
  qed
  have thrown: "?Q (Some y) b'"
    if inv: "?I i b" and lt: "js_less i ?tf" and body: "gif_body e s w h ?tf i b = (Some y, b')"
    for i b y b'
    using gif_body_thrown [OF body] inv by auto
  have finished: "?Q None b" if inv: "?I i b" and "\<not> js_less i ?tf" for i b
    using that by (simp add: js_less_def) linarith
  show ?thesis
    apply (rule for_loop_rule [where I = ?I and Q = ?Q, OF run])
       apply (rule init)
      apply (rule step; assumption)
     apply (rule thrown; assumption)
    apply (rule finished; assumption)
    done
qed

lemma progress_monotoneI:
  assumes "after = before @ 0 # ps" and "sorted (0 # ps)" and "\<forall>p \<in> set ps. 0 \<le> p \<and> p < 100"
  shows "progress_monotone before after"
  using assms by (auto simp: progress_monotone_def list_all_iff)

lemma gif_totalFrames_cases:
  "gif_totalFrames r d = NaN \<and> d = NaN \<or>
   (\<exists>k. gif_totalFrames r d = Num (of_int k) \<and>
        (case d of Num v \<Rightarrow> k = \<lfloor>r (min v 15 * 10)\<rfloor> | PosInf \<Rightarrow> k = \<lfloor>r (15 * 10)\<rfloor>
                 | NaN \<Rightarrow> False))"
  by (cases d) (simp_all add: gif_totalFrames_def js_min_def js_floor_times_def)

text \<open>
  The GIF export once it is past its guards: it returns, having run the cleanup on the
  state the loop ended in. \<open>k\<close> is the frame count the job computed (0 stands for \<open>NaN\<close>).
\<close>

lemma gif_job:
  assumes "refs_ready e" and "ctx_ready e"
  shows "\<exists>x b k. startGifExport e a = Some (cleanup (gif_outcome e (x, b))) \<and>
           isMuted b = isMuted a \<and>
           (case video_duration a of
              Num d \<Rightarrow> k = \<lfloor>rnd e (min d 15 * 10)\<rfloor>
            | PosInf \<Rightarrow> k = \<lfloor>rnd e (15 * 10)\<rfloor>
            | NaN \<Rightarrow> k = 0) \<and>
           length (gif b) \<le> nat k \<and>
           ((\<forall>i. throws_at e i = None) \<longrightarrow> length (gif b) = nat k) \<and>
           progress_log b =
             progress_log a @ 0 #
               map (\<lambda>i. roundPercent (rnd e) i (gif_totalFrames (rnd e) (video_duration a)))
                 [0..<length (gif b)]"
proof -
  let ?a = "gif_setup a"
  let ?tf = "gif_totalFrames (rnd e) (video_duration a)"
  let ?body = "gif_body e (app_settings a) (canvas_width ?a) (canvas_height ?a) ?tf"
  have start: "startGifExport e a =
      (case for_loop ?body ?tf 0 ?a of None \<Rightarrow> None | Some r \<Rightarrow> Some (cleanup (gif_outcome e r)))"
    using assms by (simp add: startGifExport_def Let_def)
  from gif_totalFrames_cases [of "rnd e" "video_duration a"] show ?thesis
  proof
    assume nan: "?tf = NaN \<and> video_duration a = NaN"
    then have tf: "?tf = NaN" and d: "video_duration a = NaN" by blast+
    have "for_loop ?body ?tf 0 ?a = Some (None, ?a)" by (simp only: tf for_loop_NaN)
    with start have "startGifExport e a = Some (cleanup (gif_outcome e (None, ?a)))" by simp
    moreover have "case video_duration a of
              Num d \<Rightarrow> (0::int) = \<lfloor>rnd e (min d 15 * 10)\<rfloor>
            | PosInf \<Rightarrow> (0::int) = \<lfloor>rnd e (15 * 10)\<rfloor>
            | NaN \<Rightarrow> (0::int) = 0"
      using d by simp
    moreover have "length (gif ?a) \<le> nat 0"
      and "(\<forall>i. throws_at e i = None) \<longrightarrow> length (gif ?a) = nat 0"
      and "progress_log ?a = progress_log a @ 0 #
               map (\<lambda>i. roundPercent (rnd e) i ?tf) [0..<length (gif ?a)]"
      and "isMuted ?a = isMuted a"
      using gif_setup_fields [of a] by simp_all
    ultimately show ?thesis by blast
  next
    assume "\<exists>k. ?tf = Num (of_int k) \<and>
        (case video_duration a of Num v \<Rightarrow> k = \<lfloor>rnd e (min v 15 * 10)\<rfloor>
                 | PosInf \<Rightarrow> k = \<lfloor>rnd e (15 * 10)\<rfloor> | NaN \<Rightarrow> False)"
    then obtain k where k: "?tf = Num (of_int k)"
      and kd: "case video_duration a of Num v \<Rightarrow> k = \<lfloor>rnd e (min v 15 * 10)\<rfloor>
                 | PosInf \<Rightarrow> k = \<lfloor>rnd e (15 * 10)\<rfloor> | NaN \<Rightarrow> False"
      by blast
    from for_loop_Num_returns [of ?body "of_int k" 0 ?a] k
    obtain x b where run: "for_loop ?body ?tf 0 ?a = Some (x, b)" by (metis surj_pair)
    from gif_loop_Num [of e "app_settings a" "canvas_width ?a" "canvas_height ?a" k ?a x b "progress_log a"]
      run k gif_setup_fields [of a]
    have res: "length (gif b) \<le> nat k \<and>
         ((\<forall>i. throws_at e i = None) \<longrightarrow> length (gif b) = nat k) \<and>
         isMuted b = isMuted a \<and>
         progress_log b =
           progress_log a @ 0 # map (\<lambda>i. roundPercent (rnd e) i ?tf) [0..<length (gif b)]"
      by simp
    from start run have "startGifExport e a = Some (cleanup (gif_outcome e (x, b)))" by simp
    moreover from kd have "case video_duration a of
              Num d \<Rightarrow> k = \<lfloor>rnd e (min d 15 * 10)\<rfloor>
            | PosInf \<Rightarrow> k = \<lfloor>rnd e (15 * 10)\<rfloor>
            | NaN \<Rightarrow> k = 0"
      by (cases "video_duration a") auto
    ultimately show ?thesis using res by blast
  qed
qed

lemma hq_body_thrown:
  assumes "hq_body e s w h tf i a = (Some x, a')"
  shows "mp4_output a' = mp4_output a \<and> isMuted a' = isMuted a \<and> console a' = console a \<and>
         downloads a' = downloads a \<and> alerts a' = alerts a \<and> throws_at e i = Some x"
  using assms
  by (auto simp: hq_body_def hq_seek_def setRenderProgress_def Let_def split: option.splits)

lemma hq_body_frame:
  assumes "hq_body e s w h tf i a = (None, a')"
  shows "length (mp4_video (mp4_output a')) = Suc (length (mp4_video (mp4_output a))) \<and>
         mp4_audio (mp4_output a') = mp4_audio (mp4_output a) \<and>
         mp4_width (mp4_output a') = mp4_width (mp4_output a) \<and>
         mp4_height (mp4_output a') = mp4_height (mp4_output a) \<and>
         isMuted a' = isMuted a \<and> console a' = console a \<and> downloads a' = downloads a \<and>
         alerts a' = alerts a"
  using assms
  by (auto simp: hq_body_def hq_seek_def setRenderProgress_def Let_def split: option.splits)

lemma hq_loop_keeps:
  assumes run: "for_loop (hq_body e s w h tf) tf i a = Some (x, a')"
  shows "isMuted a' = isMuted a \<and> console a' = console a \<and> downloads a' = downloads a \<and>
         alerts a' = alerts a \<and>
         mp4_audio (mp4_output a') = mp4_audio (mp4_output a) \<and>
         mp4_width (mp4_output a') = mp4_width (mp4_output a) \<and>
         mp4_height (mp4_output a') = mp4_height (mp4_output a)"
proof -
  let ?I = "\<lambda>(j :: nat) b. isMuted b = isMuted a \<and> console b = console a \<and>
         downloads b = downloads a \<and> alerts b = alerts a \<and>
         mp4_audio (mp4_output b) = mp4_audio (mp4_output a) \<and>
         mp4_width (mp4_output b) = mp4_width (mp4_output a) \<and>
         mp4_height (mp4_output b) = mp4_height (mp4_output a)"
  let ?Q = "\<lambda>(y :: string option) b. ?I 0 b"
  have step: "?I (Suc j) b'" if "?I j b" and "js_less j tf" and "hq_body e s w h tf j b = (None, b')"
    for j b b'
    using hq_body_frame [OF that(3)] that(1) by simp
  have thrown: "?Q (Some y) b'"
    if "?I j b" and "js_less j tf" and "hq_body e s w h tf j b = (Some y, b')" for j b y b'
    using hq_body_thrown [OF that(3)] that(1) by simp
  have finished: "?Q None b" if "?I j b" and "\<not> js_less j tf" for j b
    using that(1) by simp
  show ?thesis
    apply (rule for_loop_rule [where I = ?I and Q = ?Q, OF run])
       apply simp
      apply (rule step; assumption)
     apply (rule thrown; assumption)
    apply (rule finished; assumption)
    done
qed

lemma hq_loop_all_frames:
  assumes run: "for_loop (hq_body e s w h (Num (of_int k))) (Num (of_int k)) 0 a = Some (x, a')"
    and quiet: "\<forall>i. throws_at e i = None"
    and empty: "mp4_video (mp4_output a) = []"
  shows "x = None \<and> length (mp4_video (mp4_output a')) = nat k"
proof -
  let ?tf = "Num (of_int k)"
  let ?I = "\<lambda>j b. length (mp4_video (mp4_output b)) = j \<and> int j \<le> max 0 k"
  let ?Q = "\<lambda>(y :: string option) b. y = None \<and> length (mp4_video (mp4_output b)) = nat k"
  have init: "?I 0 a" using empty by simp
  have step: "?I (Suc j) b'" if "?I j b" and "js_less j ?tf" and "hq_body e s w h ?tf j b = (None, b')"
    for j b b'
    using hq_body_frame [OF that(3)] that(1) that(2) by (simp add: js_less_def)
  have thrown: "?Q (Some y) b'"
    if "?I j b" and "js_less j ?tf" and "hq_body e s w h ?tf j b = (Some y, b')" for j b y b'
    using hq_body_thrown [OF that(3)] quiet by simp
  have finished: "?Q None b" if "?I j b" and "\<not> js_less j ?tf" for j b
    using that by (simp add: js_less_def) linarith
  show ?thesis
    apply (rule for_loop_rule [where I = ?I and Q = ?Q, OF run])
       apply (rule init)
      apply (rule step; assumption)
     apply (rule thrown; assumption)
    apply (rule finished; assumption)
    done
qed

lemma doubles_needed:
  fixes r :: "real \<Rightarrow> real"
  assumes "\<And>(m::int) (k::nat). \<bar>m\<bar> < 2 ^ 53 \<Longrightarrow> k \<le> 1000 \<Longrightarrow> r (of_int m / 2 ^ k) = of_int m / 2 ^ k"
  shows "r 0 = 0" and "r 150 = 150" and "r (509 / 512) = 509 / 512"
    and "r (12725 / 128) = 12725 / 128"
  using assms [of 0 0] assms [of 150 0] assms [of 509 9] assms [of 12725 7] by simp_all

lemma gif_totalFrames_Num:
  assumes "case d of Num v \<Rightarrow> k = \<lfloor>r (min v 15 * 10)\<rfloor> | PosInf \<Rightarrow> k = \<lfloor>r (15 * 10)\<rfloor>
                   | NaN \<Rightarrow> False"
  shows "gif_totalFrames r d = Num (of_int k)"
  using assms by (cases d) (simp_all add: gif_totalFrames_def js_min_def js_floor_times_def)

text \<open>
  Claim C3, as amended. Let the rounding to a double be monotone and leave every double
  \<open>m / 2^k\<close> with \<open>|m| < 2^53\<close> as it is. A GIF export that starts always returns and clears
  the progress indicator. Whatever the duration of the source and whichever call throws,
  it has written at most \<open>floor(min(duration, 15) * 10)\<close> frames to the encoder, the
  product being the one the code computes; it has written exactly that many when no call
  throws; there are 150 for an endless source and none when the duration is not a number.
  The percentages it reported are 0 and then \<open>round(100 * i / totalFrames)\<close> for each frame
  \<open>i\<close> written: they never decrease and stay below 100.
\<close>

theorem gif_export_frame_cap_and_progress:
  assumes "refs_ready e" and "ctx_ready e"
    and mono: "\<And>x y. x \<le> y \<Longrightarrow> rnd e x \<le> rnd e y"
    and exact: "\<And>(m::int) (k::nat). \<bar>m\<bar> < 2 ^ 53 \<Longrightarrow> k \<le> 1000 \<Longrightarrow>
                  rnd e (of_int m / 2 ^ k) = of_int m / 2 ^ k"
  shows "\<exists>a'. startGifExport e a = Some a' \<and> renderProgress a' = None \<and>
           (case video_duration a of
              Num d \<Rightarrow>
                length (gif a') \<le> nat \<lfloor>rnd e (min d 15 * 10)\<rfloor> \<and>
                ((\<forall>i. throws_at e i = None) \<longrightarrow>
                   length (gif a') = nat \<lfloor>rnd e (min d 15 * 10)\<rfloor>)
            | PosInf \<Rightarrow>
                length (gif a') \<le> 150 \<and>
                ((\<forall>i. throws_at e i = None) \<longrightarrow> length (gif a') = 150)
            | NaN \<Rightarrow> gif a' = []) \<and>
           drop (length (progress_log a)) (progress_log a') =
             0 # map (\<lambda>i. roundPercent (rnd e) i (gif_totalFrames (rnd e) (video_duration a)))
                   [0..<length (gif a')] \<and>
           progress_monotone (progress_log a) (progress_log a')"
proof -
  note d = doubles_needed [of "rnd e", OF exact]
  let ?tf = "gif_totalFrames (rnd e) (video_duration a)"
  from gif_job [OF assms(1,2), of a] obtain x b k where
    job: "startGifExport e a = Some (cleanup (gif_outcome e (x, b)))"
    and kd: "case video_duration a of
              Num d \<Rightarrow> k = \<lfloor>rnd e (min d 15 * 10)\<rfloor>
            | PosInf \<Rightarrow> k = \<lfloor>rnd e (15 * 10)\<rfloor>
            | NaN \<Rightarrow> k = 0"
    and le: "length (gif b) \<le> nat k"
    and eq: "(\<forall>i. throws_at e i = None) \<longrightarrow> length (gif b) = nat k"
    and log: "progress_log b =
             progress_log a @ 0 # map (\<lambda>i. roundPercent (rnd e) i ?tf) [0..<length (gif b)]"
    by blast
  let ?a' = "cleanup (gif_outcome e (x, b))"
  have g: "gif ?a' = gif b" and p: "progress_log ?a' = progress_log b"
    and c: "renderProgress ?a' = None"
    using cleanup_keeps [of "gif_outcome e (x, b)"] cleanup_fields [of "gif_outcome e (x, b)"]
      gif_outcome_fields [of e x b] by simp_all
  have k150: "k \<le> 150"
  proof (cases "video_duration a")
    case NaN
    with kd show ?thesis by simp
  next
    case PosInf
    with kd d(2) show ?thesis by simp
  next
    case (Num v)
    have "rnd e (min v 15 * 10) \<le> rnd e 150" by (rule mono) simp
    then have "\<lfloor>rnd e (min v 15 * 10)\<rfloor> \<le> 150" using d(2) by (simp add: floor_le_iff)
    with kd Num show ?thesis by simp
  qed
  have cap: "case video_duration a of
              Num d \<Rightarrow>
                length (gif b) \<le> nat \<lfloor>rnd e (min d 15 * 10)\<rfloor> \<and>
                ((\<forall>i. throws_at e i = None) \<longrightarrow>
                   length (gif b) = nat \<lfloor>rnd e (min d 15 * 10)\<rfloor>)
            | PosInf \<Rightarrow>
                length (gif b) \<le> 150 \<and>
                ((\<forall>i. throws_at e i = None) \<longrightarrow> length (gif b) = 150)
            | NaN \<Rightarrow> gif b = []"
    using kd le eq d(2) by (cases "video_duration a") auto
  have rising: "sorted (0 # map (\<lambda>i. roundPercent (rnd e) i ?tf) [0..<length (gif b)]) \<and>
      (\<forall>p \<in> set (map (\<lambda>i. roundPercent (rnd e) i ?tf) [0..<length (gif b)]). 0 \<le> p \<and> p < 100)"
  proof (cases "video_duration a = NaN")
    case True
    with kd le show ?thesis by simp
  next
    case False
    with kd have "case video_duration a of Num v \<Rightarrow> k = \<lfloor>rnd e (min v 15 * 10)\<rfloor>
                   | PosInf \<Rightarrow> k = \<lfloor>rnd e (15 * 10)\<rfloor> | NaN \<Rightarrow> False"
      by (cases "video_duration a") auto
    then have "?tf = Num (of_int k)" by (rule gif_totalFrames_Num)
    with reported_progress_rising [of "rnd e" "length (gif b)" k, OF mono d(1) d(3) d(4) le k150]
    show ?thesis by simp
  qed
  from log rising have "progress_monotone (progress_log a) (progress_log b)"
    by (intro progress_monotoneI [where ps = "map (\<lambda>i. roundPercent (rnd e) i ?tf) [0..<length (gif b)]"])
      simp_all
  with job cap g p c log show ?thesis by (simp split: jsnum.splits)
qed

theorem gif_export_frame_cap_and_progress_witness:
  "refs_ready example_env \<and> ctx_ready example_env \<and>
   (\<exists>a'. startGifExport example_env example_app = Some a' \<and> renderProgress a' = None \<and>
         length (gif a') = 12 \<and> progress_monotone [] (progress_log a'))"
proof -
  have r: "refs_ready example_env" and c: "ctx_ready example_env"
    and q: "\<forall>i. throws_at example_env i = None" and i: "rnd example_env = (\<lambda>x. x)"
    by (simp_all add: example_env_def)
  have mono: "\<And>x y. x \<le> y \<Longrightarrow> rnd example_env x \<le> rnd example_env y"
    and exact: "\<And>(m::int) (k::nat). \<bar>m\<bar> < 2 ^ 53 \<Longrightarrow> k \<le> 1000 \<Longrightarrow>
                  rnd example_env (of_int m / 2 ^ k) = of_int m / 2 ^ k"
    by (simp_all add: i)
  from gif_export_frame_cap_and_progress [of example_env example_app, OF r c mono exact] r c q i
  show ?thesis by (auto simp: example_app_def)
qed

lemma upt_8: "[0..<8] = [0, 1, 2, 3, 4, 5, 6, 7]"
  by (simp add: upt_rec)

text \<open>
  Claim C3 as stated fails: the percentage does not rise to 100. For a source of 13/16 of
  a second, where every product and quotient of the job is a double, the eight frames
  report 0, 13, 25, 38, 50, 63, 75 and 88 after the initial 0, and the indicator is then
  cleared.
\<close>

theorem progress_stops_short_of_100_counterexample:
  "map_option progress_log
     (startGifExport example_env (example_app\<lparr>video_duration := Num (13 / 16)\<rparr>))
     = Some [0, 0, 13, 25, 38, 50, 63, 75, 88] \<and>
   map_option renderProgress
     (startGifExport example_env (example_app\<lparr>video_duration := Num (13 / 16)\<rparr>))
     = Some None"
proof -
  let ?a = "example_app\<lparr>video_duration := Num (13 / 16)\<rparr>"
  have r: "refs_ready example_env" and c: "ctx_ready example_env"
    and q: "\<forall>i. throws_at example_env i = None" and i: "rnd example_env = (\<lambda>x. x)"
    by (simp_all add: example_env_def)
  have tf: "gif_totalFrames (rnd example_env) (video_duration ?a) = Num 8"
    by (simp add: i gif_totalFrames_def js_min_def js_floor_times_def)
  from gif_job [OF r c, of ?a] obtain x b k where
    job: "startGifExport example_env ?a = Some (cleanup (gif_outcome example_env (x, b)))"
    and kd: "case video_duration ?a of
              Num d \<Rightarrow> k = \<lfloor>rnd example_env (min d 15 * 10)\<rfloor>
            | PosInf \<Rightarrow> k = \<lfloor>rnd example_env (15 * 10)\<rfloor>
            | NaN \<Rightarrow> k = 0"
    and eq: "(\<forall>i. throws_at example_env i = None) \<longrightarrow> length (gif b) = nat k"
    and log: "progress_log b =
             progress_log ?a @ 0 #
               map (\<lambda>i. roundPercent (rnd example_env) i
                          (gif_totalFrames (rnd example_env) (video_duration ?a)))
                 [0..<length (gif b)]"
    by blast
  from kd have "k = 8" by (simp add: i)
  with eq q have n: "length (gif b) = 8" by simp
  have "progress_log b = [0, 0, 13, 25, 38, 50, 63, 75, 88]"
    unfolding log tf n upt_8 by (simp add: i roundPercent_def example_app_def)
  with job show ?thesis
    using cleanup_keeps [of "gif_outcome example_env (x, b)"]
      cleanup_fields [of "gif_outcome example_env (x, b)"]
      gif_outcome_fields [of example_env x b]
    by simp
qed

lemma hq_extract_audio_keeps:
  assumes "hq_extract_audio withAudio e a = (ab, a1)"
  shows "isMuted a1 = isMuted a \<and> downloads a1 = downloads a \<and> alerts a1 = alerts a \<and>
         videoWidth a1 = videoWidth a \<and> videoHeight a1 = videoHeight a"
  using assms
  by (auto simp: hq_extract_audio_def setRenderProgress_def setRenderStatus_def Let_def
      split: if_splits audio_result.splits)

lemma hq_extract_audio_throws:
  assumes "truthy_url (source_url a)" and "decodeAudioData e = Decode_throws x"
  shows "\<exists>a1. hq_extract_audio True e a = (None, a1) \<and>
              console a1 = console a @ [Warn ''Audio extraction failed'' x]"
  using assms
  by (simp add: hq_extract_audio_def setRenderProgress_def setRenderStatus_def Let_def)

lemma hq_prepare_fields:
  "isMuted (hq_prepare ab s a) = isMuted a \<and> downloads (hq_prepare ab s a) = downloads a \<and>
   alerts (hq_prepare ab s a) = alerts a \<and> console (hq_prepare ab s a) = console a \<and>
   canvas_width (hq_prepare ab s a) = fst (hq_dimensions (videoWidth a) (videoHeight a) (fontSize s)) \<and>
   canvas_height (hq_prepare ab s a) = snd (hq_dimensions (videoWidth a) (videoHeight a) (fontSize s)) \<and>
   mp4_width (mp4_output (hq_prepare ab s a)) = fst (hq_dimensions (videoWidth a) (videoHeight a) (fontSize s)) \<and>
   mp4_height (mp4_output (hq_prepare ab s a)) = snd (hq_dimensions (videoWidth a) (videoHeight a) (fontSize s)) \<and>
   mp4_video (mp4_output (hq_prepare ab s a)) = [] \<and>
   mp4_audio (mp4_output (hq_prepare ab s a)) = ab"
  by (simp add: hq_prepare_def setRenderStatus_def Let_def split: prod.splits)

lemma setRenderStatus_keeps:
  "isMuted (setRenderStatus m a) = isMuted a \<and> downloads (setRenderStatus m a) = downloads a \<and>
   alerts (setRenderStatus m a) = alerts a \<and> console (setRenderStatus m a) = console a \<and>
   mp4_output (setRenderStatus m a) = mp4_output a"
  by (simp add: setRenderStatus_def)



lemma hq_totalFrames_cases:
  "hq_totalFrames r d =
     (case d of NaN \<Rightarrow> NaN | PosInf \<Rightarrow> PosInf | Num v \<Rightarrow> Num (of_int \<lfloor>r (v * 30)\<rfloor>))"
  by (simp add: hq_totalFrames_def js_floor_times_def)


text \<open>The job once it is past its guards and the set-up of the encoders.\<close>

lemma hq_job_unfold:
  assumes "source_type a = Some SrcVideo" and "refs_ready e" and "ctx_ready e"
    and "hasVideoEncoder e" and "withAudio \<longrightarrow> hasAudioEncoder e" and "setup_throws e = None"
    and "hq_extract_audio withAudio e a = (ab, a1)"
  shows "startOfflineRender withAudio e a =
     (let a2 = hq_prepare ab (app_settings a) a1;
          a3 = (if ab \<noteq> None then setRenderStatus ''ENCODING AUDIO...'' a2 else a2)
      in case (if ab \<noteq> None then audio_encode_throws e else None) of
           Some x \<Rightarrow> Some (cleanup (hq_catch x a3))
         | None \<Rightarrow>
             (case for_loop (hq_body e (app_settings a) (canvas_width a2) (canvas_height a2)
                              (hq_totalFrames (rnd e) (video_duration a)))
                     (hq_totalFrames (rnd e) (video_duration a)) 0
                     (setRenderStatus ''RENDERING VIDEO...'' a3) of
                None \<Rightarrow> None
              | Some r \<Rightarrow> Some (cleanup (hq_outcome e r))))"
  using assms
  by (cases withAudio) (simp_all add: startOfflineRender_def Let_def split: option.splits)



text \<open>
  An exception during the set-up of the encoders leaves the job without its cleanup: the
  video stays muted, the progress indicator stays at 0 and the state stays busy.
\<close>

lemma hq_setup_exception_skips_cleanup:
  assumes "source_type a = Some SrcVideo" and "refs_ready e" and "ctx_ready e"
    and "hasVideoEncoder e" and "withAudio \<longrightarrow> hasAudioEncoder e" and "setup_throws e = Some x"
  shows "\<exists>a'. startOfflineRender withAudio e a = Some a' \<and> video_muted a' \<and>
              renderProgress a' = Some 0 \<and> recordingState a' \<noteq> idle"
proof -
  obtain ab a1 where ex: "hq_extract_audio withAudio e a = (ab, a1)"
    by (cases "hq_extract_audio withAudio e a") auto
  then have f: "video_muted a1 \<and> renderProgress a1 = Some 0 \<and> recordingState a1 \<noteq> idle"
    by (auto simp: hq_extract_audio_def setRenderProgress_def setRenderStatus_def Let_def
        split: if_splits audio_result.splits)
  have "startOfflineRender withAudio e a = Some (hq_prepare ab (app_settings a) a1)"
    using assms ex by (cases withAudio) (simp_all add: startOfflineRender_def Let_def)
  with f show ?thesis
    by (simp add: hq_prepare_def setRenderStatus_def Let_def split: prod.splits)
qed




text \<open>
  Claim C7. When an HQ render with audio is started on a source with a URL and the decoding
  of the audio throws, and nothing else fails, the job returns: the failure is on the
  console as a warning, no alert is shown, and the file downloaded is a container with no
  audio track and with all \<open>floor(duration * 30)\<close> video frames, the product being the
  one the code computes.
\<close>

theorem audio_decode_failure_gives_video_only:
  assumes "source_type a = Some SrcVideo" and "refs_ready e" and "ctx_ready e"
    and "hasVideoEncoder e" and "hasAudioEncoder e"
    and "truthy_url (source_url a)" and "decodeAudioData e = Decode_throws x"
    and "setup_throws e = None" and "\<forall>i. throws_at e i = None" and "finalize_throws e = None"
    and "video_duration a = Num d"
  shows "\<exists>a' m. startOfflineRender True e a = Some a' \<and>
           console a' = console a @ [Warn ''Audio extraction failed'' x] \<and>
           alerts a' = alerts a \<and>
           downloads a' = downloads a @ [Mp4File m] \<and>
           mp4_audio m = None \<and> length (mp4_video m) = nat \<lfloor>rnd e (d * 30)\<rfloor>"
proof -
  from hq_extract_audio_throws [OF assms(6,7)] obtain a1 where
    ex: "hq_extract_audio True e a = (None, a1)"
    and warn: "console a1 = console a @ [Warn ''Audio extraction failed'' x]" by blast
  let ?a2 = "hq_prepare None (app_settings a) a1"
  let ?a4 = "setRenderStatus ''RENDERING VIDEO...'' ?a2"
  let ?k = "\<lfloor>rnd e (d * 30)\<rfloor>"
  let ?tf = "Num (of_int ?k)"
  let ?body = "hq_body e (app_settings a) (canvas_width ?a2) (canvas_height ?a2) ?tf"
  have tf: "hq_totalFrames (rnd e) (video_duration a) = ?tf"
    using assms(11) by (simp add: hq_totalFrames_cases)
  have "True \<longrightarrow> hasAudioEncoder e" using assms(5) by simp
  from hq_job_unfold [OF assms(1) assms(2) assms(3) assms(4) this assms(8) ex]
  have job: "startOfflineRender True e a =
      (case for_loop ?body ?tf 0 ?a4 of None \<Rightarrow> None | Some r \<Rightarrow> Some (cleanup (hq_outcome e r)))"
    by (simp add: Let_def tf)
  from for_loop_Num_returns [of ?body "of_int ?k" 0 ?a4]
  obtain y b where run: "for_loop ?body ?tf 0 ?a4 = Some (y, b)" by (metis surj_pair)
  have empty: "mp4_video (mp4_output ?a4) = []"
    by (simp add: setRenderStatus_keeps hq_prepare_fields)
  from hq_loop_all_frames [OF run assms(9) empty]
  have y: "y = None" and n: "length (mp4_video (mp4_output b)) = nat ?k" by simp_all
  from hq_loop_keeps [OF run]
  have keep: "console b = console a1" "downloads b = downloads a" "alerts b = alerts a"
    "mp4_audio (mp4_output b) = None"
    using hq_extract_audio_keeps [OF ex]
    by (simp_all add: setRenderStatus_keeps hq_prepare_fields)
  let ?done = "hq_outcome e (None, b)"
  have out: "console ?done = console b" "alerts ?done = alerts b"
    "downloads ?done = downloads b @ [Mp4File (mp4_output b)]"
    using assms(10) by (simp_all add: hq_outcome_def setRenderStatus_def Let_def)
  from job run y have "startOfflineRender True e a = Some (cleanup ?done)" by simp
  with out keep warn n show ?thesis by (simp add: cleanup_keeps)
qed

theorem audio_decode_failure_gives_video_only_witness:
  "source_type example_app = Some SrcVideo \<and> refs_ready example_env \<and> ctx_ready example_env \<and>
   hasVideoEncoder example_env \<and> hasAudioEncoder example_env \<and>
   truthy_url (source_url example_app) \<and>
   decodeAudioData example_env = Decode_throws ''EncodingError'' \<and>
   setup_throws example_env = None \<and> throws_at example_env 0 = None \<and>
   finalize_throws example_env = None \<and> video_duration example_app = Num 1.25 \<and>
   (\<exists>a' m. startOfflineRender True example_env example_app = Some a' \<and>
      console a' = [Warn ''Audio extraction failed'' ''EncodingError''] \<and>
      downloads a' = [Mp4File m] \<and> mp4_audio m = None \<and> length (mp4_video m) = 37)"
proof -
  have h: "source_type example_app = Some SrcVideo" "refs_ready example_env"
    "ctx_ready example_env" "hasVideoEncoder example_env" "hasAudioEncoder example_env"
    "truthy_url (source_url example_app)"
    "decodeAudioData example_env = Decode_throws ''EncodingError''"
    "setup_throws example_env = None" "\<forall>i. throws_at example_env i = None"
    "finalize_throws example_env = None" "video_duration example_app = Num 1.25"
    by (simp_all add: example_env_def example_app_def truthy_url_def)
  have c: "console example_app = []" "downloads example_app = []"
    "rnd example_env = (\<lambda>x. x)"
    by (simp_all add: example_app_def example_env_def)
  from audio_decode_failure_gives_video_only [OF h] h c show ?thesis by auto
qed

section \<open>Grid sampling and rendering\<close>

lemma grid_length:
  "length (concat (map (\<lambda>y. map (f y) xs) ys)) = length ys * length xs"
  by (induction ys) simp_all

lemma drawCell_is_glyph: "is_glyph (drawCell pixels s cols y x)"
  by (simp add: drawCell_def is_glyph_def Let_def)

lemma grid_all_glyphs:
  "filter is_glyph (concat (map (\<lambda>y. map (drawCell pixels s cols y) xs) ys))
     = concat (map (\<lambda>y. map (drawCell pixels s cols y) xs) ys)"
  by (induction ys) (simp_all add: drawCell_is_glyph)

lemma drawAsciiFrame_empty:
  assumes "width div fontSize s = 0 \<or> height div fontSize s = 0"
  shows "drawAsciiFrame source width height s = []"
  using assms by (auto simp: drawAsciiFrame_def Let_def)

lemma getAsciiString_empty:
  assumes "width div fontSize s = 0 \<or> height div fontSize s = 0"
  shows "getAsciiString source width height s = []"
  using assms by (auto simp: getAsciiString_def Let_def)

lemma drawAsciiFrame_glyphs:
  assumes "0 < fontSize s" and "0 < cols" and "0 < rows"
  shows "glyphs_drawn (drawAsciiFrame source (cols * fontSize s) (rows * fontSize s) s) = rows * cols"
  using assms
  by (simp add: drawAsciiFrame_def glyphs_drawn_def Let_def is_glyph_def grid_all_glyphs grid_length)

lemma text_row_length:
  "length (concat (map (textCell pixels s cols y) xs)) = 2 * length xs"
  by (induction xs) (simp_all add: textCell_def Let_def)

lemma text_length:
  "length (concat (map (\<lambda>y. concat (map (textCell pixels s cols y) xs) @ [nl]) ys))
     = length ys * (2 * length xs + 1)"
  by (induction ys) (simp_all add: text_row_length)

lemma getAsciiString_length:
  assumes "0 < fontSize s" and "0 < cols" and "0 < rows"
  shows "length (getAsciiString source (cols * fontSize s) (rows * fontSize s) s) = rows * (2 * cols + 1)"
  using assms by (simp add: getAsciiString_def Let_def text_length)

text \<open>
  Claim C2, as amended. For a positive cell size, \<open>drawAsciiFrame\<close> draws nothing and
  \<open>getAsciiString\<close> returns the empty string whenever the width or the height they are
  given holds no whole cell; the export loops call them so. The preview render and the
  text export first raise the number of columns and of rows to at least one: once the
  source has a size, the preview draws one glyph per cell of that grid, and the text has
  two characters per cell and a newline per row.
\<close>

theorem empty_grid_only_on_direct_paths:
  assumes "0 < fontSize s"
  shows "(width div fontSize s = 0 \<or> height div fontSize s = 0 \<longrightarrow>
            drawAsciiFrame source width height s = [] \<and>
            getAsciiString source width height s = []) \<and>
         (0 < width \<and> 0 < height \<longrightarrow>
            (\<exists>w h drawn. renderFrame (Some (source, width, height)) s = Some (w, h, drawn) \<and>
               glyphs_drawn drawn =
                 max 1 (height div fontSize s) * max 1 (width div fontSize s))) \<and>
         (\<exists>text. copyTextToClipboard (Some (source, width, height)) s = Some text \<and>
            length text =
              max 1 (height div fontSize s) * (2 * max 1 (width div fontSize s) + 1))"
proof (intro conjI impI)
  assume "width div fontSize s = 0 \<or> height div fontSize s = 0"
  then show "drawAsciiFrame source width height s = []"
    and "getAsciiString source width height s = []"
    by (rule drawAsciiFrame_empty, rule getAsciiString_empty)
next
  assume "0 < width \<and> 0 < height"
  then show "\<exists>w h drawn. renderFrame (Some (source, width, height)) s = Some (w, h, drawn) \<and>
               glyphs_drawn drawn =
                 max 1 (height div fontSize s) * max 1 (width div fontSize s)"
    using drawAsciiFrame_glyphs [OF assms, of "max 1 (width div fontSize s)"
        "max 1 (height div fontSize s)" source]
    by (simp add: renderFrame_def Let_def)
next
  show "\<exists>text. copyTextToClipboard (Some (source, width, height)) s = Some text \<and>
            length text =
              max 1 (height div fontSize s) * (2 * max 1 (width div fontSize s) + 1)"
    using getAsciiString_length [OF assms, of "max 1 (width div fontSize s)"
        "max 1 (height div fontSize s)" source]
    by (simp add: copyTextToClipboard_def Let_def)
qed

theorem empty_grid_only_on_direct_paths_witness:
  "0 < fontSize DEFAULT_SETTINGS \<and> (10::nat) div fontSize DEFAULT_SETTINGS = 0 \<and>
   drawAsciiFrame example_source 10 180 DEFAULT_SETTINGS = [] \<and>
   getAsciiString example_source 10 180 DEFAULT_SETTINGS = [] \<and>
   (\<exists>w h drawn. renderFrame (Some (example_source, 10, 180)) DEFAULT_SETTINGS = Some (w, h, drawn) \<and>
      glyphs_drawn drawn = 11) \<and>
   (\<exists>text. copyTextToClipboard (Some (example_source, 10, 180)) DEFAULT_SETTINGS = Some text \<and>
      length text = 33)"
proof -
  have f: "fontSize DEFAULT_SETTINGS = 16" by (simp add: DEFAULT_SETTINGS_def)
  then have p: "0 < fontSize DEFAULT_SETTINGS" by simp
  from empty_grid_only_on_direct_paths [OF p, of 10 180 example_source] f
  show ?thesis by simp
qed

text \<open>
  Claim C2 as stated fails on the preview and on the text export: a white source of 10 by
  10 pixels holds no cell of 16 pixels, yet one glyph is drawn and the text is not empty.
\<close>

theorem preview_renders_below_one_cell_counterexample:
  "(10::nat) div fontSize DEFAULT_SETTINGS = 0 \<and>
   renderFrame (Some (\<lambda>cols rows index. 255, 10, 10)) DEFAULT_SETTINGS =
     Some (16, 16, [FillRect (Css ''#000000'') 0 0 16 16, FillText 64 (Rgb 255 255 255) 0 0]) \<and>
   copyTextToClipboard (Some (\<lambda>cols rows index. 255, 10, 10)) DEFAULT_SETTINGS =
     Some [64, 64, 10]"
  by (simp add: renderFrame_def copyTextToClipboard_def drawAsciiFrame_def getAsciiString_def
      drawCell_def textCell_def cellStyle_def glyphIndex_def pixelAt_def preprocessPixel_def
      luma_def charIndex_def densityOf_def densityKey_def DENSITY_SETS_def DEFAULT_SETTINGS_def
      example_source_def Let_def)

section \<open>Output size, seeking and live recording\<close>




lemma await_seeked_bounded: "await_seeked latency \<le> 500"
  by (simp add: await_seeked_def split: option.splits)

lemma seekTo_log:
  "seek_log (seekTo latency time a) = seek_log a @
     [if \<bar>video_currentTime a - time\<bar> < 0.01 then Resolved_at_once time
      else Seek_issued time (await_seeked latency)]"
  by (simp add: seekTo_def)

lemma hq_seek_log:
  "seek_log (hq_seek latency time a) = seek_log a @ [Seek_issued time (await_seeked latency)]"
  by (simp add: hq_seek_def)

text \<open>
  Claim C9, at the input where the code departs from it. Both loops wait for \<open>seeked\<close> or
  for 500 ms at most, but only the GIF export goes through \<open>seekTo\<close>. With the video
  already at second 0, the first iteration of the HQ loop assigns the position and waits
  for the event (here 20 ms); the first iteration of the GIF loop resolves at once and
  assigns nothing.
\<close>

theorem hq_seek_at_target_is_issued:
  "seek_log (snd (hq_body example_env DEFAULT_SETTINGS 320 176 (Num 37) 0
                    (example_app\<lparr>video_currentTime := 0\<rparr>))) = [Seek_issued 0 20] \<and>
   seek_log (snd (gif_body example_env DEFAULT_SETTINGS 320 176 (Num 12) 0
                    (example_app\<lparr>video_currentTime := 0\<rparr>))) = [Resolved_at_once 0]"
  by (simp add: hq_body_def gif_body_def hq_seek_def seekTo_def await_seeked_def
      setRenderProgress_def example_env_def example_app_def Let_def split: prod.splits)

lemma getAudioTracks_video: "getAudioTracks (getVideoTracks stream) = []"
  by (induction stream) (auto simp: getAudioTracks_def getVideoTracks_def)

lemma getAudioTracks_append:
  "getAudioTracks (xs @ ys) = getAudioTracks xs @ getAudioTracks ys"
  by (simp add: getAudioTracks_def)

lemma clones_are_clones: "\<forall>t \<in> set (getAudioTracks (map clone ts)). is_clone t"
  by (auto simp: getAudioTracks_def clone_def)

lemma addAudioTracks_clones:
  "\<forall>t \<in> set (getAudioTracks (addAudioTracks st (getVideoTracks c))). is_clone t"
  using clones_are_clones
  by (cases st) (simp_all add: addAudioTracks_def getAudioTracks_append getAudioTracks_video)

text \<open>
  Claim C10. A live recording started while the mute flag is set records the video tracks
  of the canvas and nothing else, whatever audio the source carries; every audio track of
  a recording is a clone, added by a recorder that started unmuted.
\<close>

theorem muted_live_recording_is_video_only:
  assumes "startLiveRecording l a = Some (a', r)"
  shows "(isMuted a \<longrightarrow> mixedStream r = getVideoTracks (canvasStream l) \<and>
                         getAudioTracks (mixedStream r) = []) \<and>
         (\<forall>t \<in> set (getAudioTracks (mixedStream r)). is_clone t \<and> \<not> isMuted a)"
proof (cases "canvas_ready l")
  case False
  with assms show ?thesis by (simp add: startLiveRecording_def)
next
  case True
  let ?v = "getVideoTracks (canvasStream l)"
  from assms True have m: "mixedStream r =
      (if source_type a = Some SrcVideo \<and> videoRef_ready l \<and>
                   video_captureStream l \<noteq> None \<and> \<not> isMuted a
                then addAudioTracks (video_captureStream l) ?v
                else if source_type a = Some SrcWebcam \<and> source_stream l \<noteq> None \<and> \<not> isMuted a
                then addAudioTracks (source_stream l) ?v
                else ?v)"
    by (auto simp: startLiveRecording_def Let_def)
  show ?thesis
  proof (cases "isMuted a")
    case True
    with m show ?thesis by (simp add: getAudioTracks_video)
  next
    case False
    with m addAudioTracks_clones [of "video_captureStream l" "canvasStream l"]
      addAudioTracks_clones [of "source_stream l" "canvasStream l"]
    show ?thesis by (auto simp: getAudioTracks_video)
  qed
qed

theorem muted_live_recording_is_video_only_witness:
  "isMuted example_webcam_app \<and>
   (\<exists>a' r. startLiveRecording example_live example_webcam_app = Some (a', r) \<and>
      mixedStream r = [\<lparr>track_kind = VideoKind, track_label = ''canvas'', is_clone = False\<rparr>] \<and>
      getAudioTracks (mixedStream r) = [])"
proof -
  obtain a' r where s: "startLiveRecording example_live example_webcam_app = Some (a', r)"
    by (simp add: startLiveRecording_def example_live_def Let_def)
  have m: "isMuted example_webcam_app" by (simp add: example_webcam_app_def)
  have c: "getVideoTracks (canvasStream example_live) =
      [\<lparr>track_kind = VideoKind, track_label = ''canvas'', is_clone = False\<rparr>]"
    by (simp add: example_live_def getVideoTracks_def)
  from muted_live_recording_is_video_only [OF s] m c s show ?thesis
    by (simp add: getAudioTracks_def)
qed

end
